theory Spec2Isabelle
  imports Complex_Main
begin

section \<open>concat.py: consolidation, projection and median imputation of feature tables\<close>

text \<open>
  The script \<^verbatim>\<open>concat.py\<close> is one linear run:
  \<^item> lines 9-20 walk \<^verbatim>\<open>parquets/no_wind/sujetos\<close>, and read every \<^verbatim>\<open>*.parquet\<close> file of
    every folder whose name starts with \<^verbatim>\<open>NF\<close> or \<^verbatim>\<open>PF\<close> into the list \<^verbatim>\<open>dfs\<close>;
  \<^item> line 23 concatenates the list with \<^verbatim>\<open>pd.concat(dfs, ignore_index=True)\<close>;
  \<^item> lines 24-27 project the table on \<^verbatim>\<open>columns_to_keep\<close>, line 33 writes it;
  \<^item> lines 38-43 run \<^verbatim>\<open>SimpleImputer(strategy='median')\<close> on the columns \<^verbatim>\<open>features\<close>
    and store the result back into the table, line 45 writes it.

  The script's own code is embedded statement by statement. The pandas and scikit-learn
  calls it makes are embedded by what these libraries do on the call as written (default
  arguments included); each definition says which behaviour it records.

  Scope of the model. A cell is missing (\<open>NaN\<close>), a number, or a value that is not a
  number, kept as its text (a string, a timestamp). Numbers are real numbers: rounding
  and overflow of binary floating point are outside the model. What Python's conversion
  to \<^verbatim>\<open>float\<close> makes of a text is not part of this repository and is a parameter of the
  imputer and of the run. Column dtypes are not tracked, and the two \<^verbatim>\<open>to_parquet\<close>
  calls are taken to succeed. The three \<^verbatim>\<open>print\<close> lines (35-37) change nothing and are
  left out.
\<close>

subsection \<open>Data\<close>

datatype cell = NaN | Num real | Str string

text \<open>
  A table after \<^verbatim>\<open>ignore_index=True\<close> has the row index \<open>0..nrows-1\<close>; the input files'
  own indices are discarded by that argument, so the index is its length. Columns are
  kept in order, by name.
\<close>

record dataframe =
  nrows :: nat
  cols :: "(string \<times> cell list) list"

definition colnames :: "dataframe \<Rightarrow> string list" where
  "colnames df = map fst (cols df)"

definition column :: "dataframe \<Rightarrow> string \<Rightarrow> cell list option" where
  "column df c = map_of (cols df) c"

text \<open>Reading one cell; \<open>None\<close> where pandas has no such column or no such row.\<close>

definition cell_at :: "dataframe \<Rightarrow> string \<Rightarrow> nat \<Rightarrow> cell option" where
  "cell_at df c i =
     (case column df c of
        None \<Rightarrow> None
      | Some v \<Rightarrow> if i < length v then Some (v ! i) else None)"

text \<open>
  The tables pandas builds from a parquet file: the column names are pairwise different
  and every column has one cell per row.
\<close>

definition wf_frame :: "dataframe \<Rightarrow> bool" where
  "wf_frame df \<longleftrightarrow>
     distinct (colnames df) \<and> list_all (\<lambda>(n, v). length v = nrows df) (cols df)"

datatype py_error =
    FileNotFoundError                 \<comment> \<open>\<^verbatim>\<open>os.listdir\<close> on a root that does not exist\<close>
  | DecodeError string                \<comment> \<open>\<^verbatim>\<open>pd.read_parquet\<close> on a file it cannot decode\<close>
  | NoObjectsToConcatenate            \<comment> \<open>ValueError of \<^verbatim>\<open>pd.concat\<close> on an empty list\<close>
  | KeyError "string list"            \<comment> \<open>labels not among the columns\<close>
  | NonNumericData                    \<comment> \<open>ValueError of the imputer: median of non-numeric data\<close>
  | InfiniteValue                     \<comment> \<open>ValueError of the imputer: the input contains infinity\<close>
  | NoSamples                         \<comment> \<open>ValueError of the imputer: array with 0 samples\<close>
  | NoFeatures                        \<comment> \<open>ValueError of the imputer: array with 0 features\<close>
  | ShapeMismatch nat nat             \<comment> \<open>ValueError of \<^verbatim>\<open>pd.DataFrame\<close>: columns passed, columns implied\<close>
  | ColumnsKeyLength                  \<comment> \<open>ValueError of item assignment: columns and key differ in length\<close>

subsection \<open>Lines 24-30: the two fixed column lists\<close>

definition columns_to_keep :: "string list" where
  "columns_to_keep =
     [''ts'', ''subject_id'', ''week'', ''date'', ''cppall'', ''zcrall'', ''normpeakall'',
      ''spectralTiltall'', ''LHratioall'', ''H1H2all'', ''periodicity'', ''level'', ''freq'',
      ''dBcms2'', ''cppall_2048'', ''acflow'', ''mfdr'', ''oq'', ''naq'', ''h1h2'',
      ''voicedRMS'']"

definition features :: "string list" where
  "features =
     [''cppall'', ''zcrall'', ''normpeakall'', ''spectralTiltall'', ''LHratioall'',
      ''H1H2all'', ''periodicity'', ''level'', ''freq'', ''dBcms2'', ''cppall_2048'',
      ''acflow'', ''mfdr'', ''oq'', ''naq'', ''h1h2'']"

subsection \<open>Lines 9-20: the directory walk\<close>

text \<open>
  An entry of the root directory is a folder, with its entries in listing order, or
  something else. An entry of a folder carries what \<^verbatim>\<open>pd.read_parquet\<close> makes of it:
  a table, or nothing when it cannot be decoded.
\<close>

datatype node = NotADir | Folder "(string \<times> dataframe option) list"

definition startswith :: "string \<Rightarrow> string \<Rightarrow> bool" where
  "startswith s p \<longleftrightarrow> take (length p) s = p"

definition endswith :: "string \<Rightarrow> string \<Rightarrow> bool" where
  "endswith s p \<longleftrightarrow> length p \<le> length s \<and> drop (length s - length p) s = p"

text \<open>The inner loop (lines 16-20), appending to the list \<^verbatim>\<open>dfs\<close>.\<close>

fun read_folder :: "(string \<times> dataframe option) list \<Rightarrow> dataframe list \<Rightarrow> py_error + dataframe list" where
  "read_folder [] dfs = Inr dfs"
| "read_folder ((file_name, content) # rest) dfs =
     (if endswith file_name ''.parquet'' then
        (case content of
           None \<Rightarrow> Inl (DecodeError file_name)
         | Some df \<Rightarrow> read_folder rest (dfs @ [df]))
      else read_folder rest dfs)"

text \<open>The outer loop (lines 12-15).\<close>

fun scan :: "(string \<times> node) list \<Rightarrow> dataframe list \<Rightarrow> py_error + dataframe list" where
  "scan [] dfs = Inr dfs"
| "scan ((folder_name, nd) # rest) dfs =
     (if startswith folder_name ''NF'' \<or> startswith folder_name ''PF'' then
        (case nd of
           NotADir \<Rightarrow> scan rest dfs
         | Folder files \<Rightarrow>
             (case read_folder files dfs of
                Inl e \<Rightarrow> Inl e
              | Inr dfs' \<Rightarrow> scan rest dfs'))
      else scan rest dfs)"

text \<open>The root directory is absent (\<open>None\<close>) or lists its entries.\<close>

definition discover :: "(string \<times> node) list option \<Rightarrow> py_error + dataframe list" where
  "discover listing =
     (case listing of
        None \<Rightarrow> Inl FileNotFoundError
      | Some entries \<Rightarrow> scan entries [])"

subsection \<open>Line 23: \<^verbatim>\<open>pd.concat(dfs, ignore_index=True)\<close>\<close>

text \<open>
  pandas raises \<^verbatim>\<open>ValueError: No objects to concatenate\<close> on an empty list. Otherwise the
  rows follow each other in list order under a fresh index; the columns are the union of
  the tables' columns in order of first appearance (\<^verbatim>\<open>join='outer'\<close>, \<^verbatim>\<open>sort=False\<close>), and a
  table without a column contributes missing cells to it.
\<close>

definition union_columns :: "string list \<Rightarrow> string list" where
  "union_columns names = rev (remdups (rev names))"

definition column_or_nan :: "dataframe \<Rightarrow> string \<Rightarrow> cell list" where
  "column_or_nan df c =
     (case column df c of
        Some v \<Rightarrow> v
      | None \<Rightarrow> replicate (nrows df) NaN)"

definition pd_concat :: "dataframe list \<Rightarrow> py_error + dataframe" where
  "pd_concat dfs =
     (if dfs = [] then Inl NoObjectsToConcatenate
      else Inr \<lparr>nrows = sum_list (map nrows dfs),
                cols = map (\<lambda>c. (c, concat (map (\<lambda>df. column_or_nan df c) dfs)))
                           (union_columns (concat (map colnames dfs)))\<rparr>)"


subsection \<open>Lines 27, 38, 43: \<^verbatim>\<open>df[keys]\<close> with a list of labels\<close>

text \<open>
  pandas raises \<^verbatim>\<open>KeyError\<close>, naming the absent labels, when a label is not a column.
  Otherwise the result has, for each label in the order given, the columns of that name,
  and the same rows.
\<close>

definition getitem :: "dataframe \<Rightarrow> string list \<Rightarrow> py_error + dataframe" where
  "getitem df keys =
     (let missing = filter (\<lambda>k. k \<notin> set (colnames df)) keys
      in if missing \<noteq> [] then Inl (KeyError missing)
         else Inr \<lparr>nrows = nrows df,
                   cols = concat (map (\<lambda>k. filter (\<lambda>(n, v). n = k) (cols df)) keys)\<rparr>)"

subsection \<open>Lines 39-40: \<^verbatim>\<open>SimpleImputer(strategy='median').fit_transform(X)\<close>\<close>

text \<open>The values of a column that are not masked, in row order.\<close>

fun observed :: "cell list \<Rightarrow> real list" where
  "observed [] = []"
| "observed (Num x # v) = x # observed v"
| "observed (c # v) = observed v"

text \<open>
  Input validation turns the columns into one array of \<^verbatim>\<open>float64\<close>. A missing cell and a
  number stay as they are. A text goes through Python's \<^verbatim>\<open>float\<close>: it reads as a finite
  number (\<^verbatim>\<open>'1.5'\<close>), as \<^verbatim>\<open>nan\<close>, as an infinity, or not at all. That function is the
  parameter \<open>conv\<close>.
\<close>

datatype parsed = Unparsable | ParsedNaN | ParsedInf | Parsed real

type_synonym float_conv = "string \<Rightarrow> parsed"

fun unconvertible :: "float_conv \<Rightarrow> cell \<Rightarrow> bool" where
  "unconvertible conv (Str s) = (conv s = Unparsable)"
| "unconvertible conv c = False"

fun infinite_cell :: "float_conv \<Rightarrow> cell \<Rightarrow> bool" where
  "infinite_cell conv (Str s) = (conv s = ParsedInf)"
| "infinite_cell conv c = False"

text \<open>
  The cell of the float array. A text that does not convert, or converts to an infinity,
  makes validation raise before the array is used; the value given for it here is never
  read.
\<close>

fun as_float :: "float_conv \<Rightarrow> cell \<Rightarrow> cell" where
  "as_float conv (Str s) = (case conv s of Parsed x \<Rightarrow> Num x | _ \<Rightarrow> NaN)"
| "as_float conv c = c"

text \<open>
  The masked median of one column, as numpy's masked-array median computes it along an
  axis: sort the unmasked values, take the element at half the count as \<open>high\<close> and the
  one before it as \<open>low\<close>, overwrite \<open>low\<close> by \<open>high\<close> when the count is odd, and halve
  their sum. A column with every value masked has a masked median, which the imputer
  stores as \<^verbatim>\<open>nan\<close> (\<open>None\<close> here).
\<close>

definition median_masked :: "cell list \<Rightarrow> real option" where
  "median_masked v =
     (let asorted = sort (observed v);
          counts = length asorted;
          h = counts div 2
      in if counts = 0 then None
         else let high = asorted ! h;
                  low = (if odd counts then high else asorted ! (h - 1))
              in Some ((low + high) / 2))"

text \<open>\<^verbatim>\<open>fit\<close>: the attribute \<^verbatim>\<open>statistics_\<close>, one median per column.\<close>

definition fit :: "cell list list \<Rightarrow> real option list" where
  "fit X = map median_masked X"

definition fill :: "real \<Rightarrow> cell \<Rightarrow> cell" where
  "fill m c = (if c = NaN then Num m else c)"

text \<open>
  \<^verbatim>\<open>transform\<close> with the default \<^verbatim>\<open>keep_empty_features=False\<close>: a column whose statistic
  is \<^verbatim>\<open>nan\<close> is skipped (with a warning only) and is absent from the result; in every
  other column the missing cells receive the statistic.
\<close>

definition transform :: "real option list \<Rightarrow> cell list list \<Rightarrow> cell list list" where
  "transform statistics X =
     concat (map (\<lambda>(st, v). case st of None \<Rightarrow> [] | Some m \<Rightarrow> [map (fill m) v])
                 (zip statistics X))"

text \<open>
  The result is a numpy array, here its number of rows and its columns. Input validation
  raises, in this order, when a cell does not convert to a float, when a cell is
  infinite, when the array has no rows, and when it has no columns. The medians are
  fitted on the converted array, and it is the converted array that is filled.
\<close>

type_synonym ndarray = "nat \<times> cell list list"

definition fit_transform :: "float_conv \<Rightarrow> dataframe \<Rightarrow> py_error + ndarray" where
  "fit_transform conv X =
     (let M = map snd (cols X)
      in if list_ex (list_ex (unconvertible conv)) M then Inl NonNumericData
         else if list_ex (list_ex (infinite_cell conv)) M then Inl InfiniteValue
         else if nrows X = 0 then Inl NoSamples
         else if M = [] then Inl NoFeatures
         else let A = map (map (as_float conv)) M
              in Inr (nrows X, transform (fit A) A))"

subsection \<open>Line 42: \<^verbatim>\<open>pd.DataFrame(X_imputed, columns=features)\<close>\<close>

text \<open>
  pandas raises \<^verbatim>\<open>ValueError: Shape of passed values is (n, k), indices imply (n, m)\<close> when
  the array does not have one column per name.
\<close>

definition DataFrame :: "ndarray \<Rightarrow> string list \<Rightarrow> py_error + dataframe" where
  "DataFrame A names =
     (if length (snd A) \<noteq> length names
      then Inl (ShapeMismatch (length (snd A)) (length names))
      else Inr \<lparr>nrows = fst A, cols = zip names (snd A)\<rparr>)"

subsection \<open>Line 43: \<^verbatim>\<open>final_df[features] = X_imputed_df[features]\<close>\<close>

text \<open>
  Assigning a table to a list of labels: pandas checks that the table has as many columns
  as there are labels and then assigns the columns one by one, the \<open>i\<close>-th column of the
  value to the \<open>i\<close>-th label. A single assignment aligns the new column on the row index
  of the target (both are \<open>0..n-1\<close> here: cut or padded with missing cells), replaces
  the column of that name where it stands, or appends a new column.
\<close>

definition align :: "nat \<Rightarrow> cell list \<Rightarrow> cell list" where
  "align n v = take n v @ replicate (n - length v) NaN"

definition set_column :: "dataframe \<Rightarrow> string \<Rightarrow> cell list \<Rightarrow> dataframe" where
  "set_column df k v =
     (if k \<in> set (colnames df)
      then df\<lparr>cols := map (\<lambda>(n, w). if n = k then (n, align (nrows df) v) else (n, w)) (cols df)\<rparr>
      else df\<lparr>cols := cols df @ [(k, align (nrows df) v)]\<rparr>)"

definition setitem :: "dataframe \<Rightarrow> string list \<Rightarrow> dataframe \<Rightarrow> py_error + dataframe" where
  "setitem df keys val =
     (if length (cols val) \<noteq> length keys then Inl ColumnsKeyLength
      else Inr (fold (\<lambda>(k, (n, v)) d. set_column d k v) (zip keys (cols val)) df))"

subsection \<open>The run\<close>

text \<open>
  The two output files, \<^verbatim>\<open>all_data.parquet\<close> (line 33) and \<^verbatim>\<open>all_data_imputed.parquet\<close>
  (line 45): absent, or holding a table. A write replaces the whole file. An error ends
  the run where it is raised, with the files as they are at that point.
\<close>

record files =
  all_data :: "dataframe option"
  all_data_imputed :: "dataframe option"

text \<open>Lines 38-43, on the projected table \<^verbatim>\<open>final_df\<close>.\<close>

definition impute_features :: "float_conv \<Rightarrow> dataframe \<Rightarrow> py_error + dataframe" where
  "impute_features conv final_df =
     (case getitem final_df features of Inl e \<Rightarrow> Inl e | Inr X \<Rightarrow>
     (case fit_transform conv X of Inl e \<Rightarrow> Inl e | Inr X_imputed \<Rightarrow>
     (case DataFrame X_imputed features of Inl e \<Rightarrow> Inl e | Inr X_imputed_df \<Rightarrow>
     (case getitem X_imputed_df features of Inl e \<Rightarrow> Inl e | Inr val \<Rightarrow>
        setitem final_df features val))))"

text \<open>Lines 23-45, on the list \<^verbatim>\<open>dfs\<close> of the tables read.\<close>

definition pipeline :: "float_conv \<Rightarrow> files \<Rightarrow> dataframe list \<Rightarrow> py_error option \<times> files" where
  "pipeline conv fs dfs =
     (case pd_concat dfs of Inl e \<Rightarrow> (Some e, fs) | Inr final_df0 \<Rightarrow>
     (case getitem final_df0 columns_to_keep of Inl e \<Rightarrow> (Some e, fs) | Inr final_df \<Rightarrow>
     (let fs1 = fs\<lparr>all_data := Some final_df\<rparr> in
     (case impute_features conv final_df of Inl e \<Rightarrow> (Some e, fs1) | Inr final_df' \<Rightarrow>
        (None, fs1\<lparr>all_data_imputed := Some final_df'\<rparr>)))))"

text \<open>The whole script, lines 9-45.\<close>

definition main ::
  "float_conv \<Rightarrow> files \<Rightarrow> (string \<times> node) list option \<Rightarrow> py_error option \<times> files" where
  "main conv fs listing =
     (case discover listing of
        Inl e \<Rightarrow> (Some e, fs)
      | Inr dfs \<Rightarrow> pipeline conv fs dfs)"

text \<open>
  A feature column of a table as the float array holds it, and the tables whose feature
  cells all convert to a finite number or to \<^verbatim>\<open>nan\<close>.
\<close>

definition float_column :: "float_conv \<Rightarrow> dataframe \<Rightarrow> string \<Rightarrow> cell list" where
  "float_column conv df k =
     (case column df k of None \<Rightarrow> [] | Some v \<Rightarrow> map (as_float conv) v)"

definition features_convertible :: "float_conv \<Rightarrow> dataframe \<Rightarrow> bool" where
  "features_convertible conv df \<longleftrightarrow>
     list_all (\<lambda>k. case column df k of
                      None \<Rightarrow> True
                    | Some v \<Rightarrow> \<not> list_ex (unconvertible conv) v \<and> \<not> list_ex (infinite_cell conv) v)
              features"

subsection \<open>The median in the specification's words\<close>

text \<open>
  The middle value of the sorted values, and the average of the two middle values when
  their number is even.
\<close>

definition standard_median :: "real list \<Rightarrow> real" where
  "standard_median xs =
     (let s = sort xs; n = length s
      in if even n then (s ! (n div 2 - 1) + s ! (n div 2)) / 2 else s ! (n div 2))"

subsection \<open>An example run\<close>

text \<open>
  Two folders, \<^verbatim>\<open>NF001\<close> with a file of 2 rows (and one column outside the fixed list)
  and \<^verbatim>\<open>PF002\<close> with a file of 3 rows; a folder and an entry of the root that the
  walk skips. The tables the run produces from them are written out, to be compared
  with what the definitions compute.
\<close>

definition example_nf :: dataframe where
  "example_nf =
     \<lparr>nrows = 2,
      cols = [(''ts'', [Str ''t0'', Str ''t1'']), (''subject_id'', [Str ''NF001'', Str ''NF001'']),
              (''week'', [Num 1, Num 1]), (''date'', [Str ''d0'', Str ''d0''])]
             @ map (\<lambda>c. (c, [Num 1, NaN])) features
             @ [(''voicedRMS'', [NaN, Num 2]), (''extra'', [Num 0, Num 0])]\<rparr>"

definition example_pf :: dataframe where
  "example_pf =
     \<lparr>nrows = 3,
      cols = [(''ts'', [Str ''t2'', Str ''t3'', Str ''t4'']),
              (''subject_id'', [Str ''PF002'', Str ''PF002'', Str ''PF002'']),
              (''week'', [Num 2, Num 2, NaN]), (''date'', [Str ''d1'', Str ''d1'', Str ''d2''])]
             @ map (\<lambda>c. (c, [Num 3, NaN, Num 7])) features
             @ [(''voicedRMS'', [Num 5, NaN, NaN])]\<rparr>"

definition example_listing :: "(string \<times> node) list option" where
  "example_listing =
     Some [(''NF001'', Folder [(''s1.parquet'', Some example_nf), (''notes.txt'', None)]),
           (''README'', NotADir),
           (''PF002'', Folder [(''s1.parquet'', Some example_pf)]),
           (''XX003'', Folder [(''s1.parquet'', Some example_pf)])]"

text \<open>A conversion that reads three texts; every other text is not a float.\<close>

definition example_conv :: float_conv where
  "example_conv s =
     (if s = ''1.5'' then Parsed (3 / 2)
      else if s = ''nan'' then ParsedNaN
      else if s = ''inf'' then ParsedInf
      else Unparsable)"

text \<open>No output file yet, and the tables of the first example at each stage.\<close>

definition no_files :: files where
  "no_files = \<lparr>all_data = None, all_data_imputed = None\<rparr>"

definition example_concat :: dataframe where
  "example_concat =
     \<lparr>nrows = 5,
      cols = [(''ts'', [Str ''t0'', Str ''t1'', Str ''t2'', Str ''t3'', Str ''t4'']),
              (''subject_id'', [Str ''NF001'', Str ''NF001'', Str ''PF002'', Str ''PF002'', Str ''PF002'']),
              (''week'', [Num 1, Num 1, Num 2, Num 2, NaN]),
              (''date'', [Str ''d0'', Str ''d0'', Str ''d1'', Str ''d1'', Str ''d2''])]
             @ map (\<lambda>c. (c, [Num 1, NaN, Num 3, NaN, Num 7])) features
             @ [(''voicedRMS'', [NaN, Num 2, Num 5, NaN, NaN]),
                (''extra'', [Num 0, Num 0, NaN, NaN, NaN])]\<rparr>"

definition example_raw :: dataframe where
  "example_raw =
     \<lparr>nrows = 5,
      cols = [(''ts'', [Str ''t0'', Str ''t1'', Str ''t2'', Str ''t3'', Str ''t4'']),
              (''subject_id'', [Str ''NF001'', Str ''NF001'', Str ''PF002'', Str ''PF002'', Str ''PF002'']),
              (''week'', [Num 1, Num 1, Num 2, Num 2, NaN]),
              (''date'', [Str ''d0'', Str ''d0'', Str ''d1'', Str ''d1'', Str ''d2''])]
             @ map (\<lambda>c. (c, [Num 1, NaN, Num 3, NaN, Num 7])) features
             @ [(''voicedRMS'', [NaN, Num 2, Num 5, NaN, NaN])]\<rparr>"

definition example_imputed :: dataframe where
  "example_imputed =
     \<lparr>nrows = 5,
      cols = [(''ts'', [Str ''t0'', Str ''t1'', Str ''t2'', Str ''t3'', Str ''t4'']),
              (''subject_id'', [Str ''NF001'', Str ''NF001'', Str ''PF002'', Str ''PF002'', Str ''PF002'']),
              (''week'', [Num 1, Num 1, Num 2, Num 2, NaN]),
              (''date'', [Str ''d0'', Str ''d0'', Str ''d1'', Str ''d1'', Str ''d2''])]
             @ map (\<lambda>c. (c, [Num 1, Num 3, Num 3, Num 3, Num 7])) features
             @ [(''voicedRMS'', [NaN, Num 2, Num 5, NaN, NaN])]\<rparr>"

text \<open>
  A second directory, with one file that lacks most columns of the fixed list, and a
  third with one file whose feature column \<open>oq\<close> is entirely missing.
\<close>

definition example_drift :: dataframe where
  "example_drift =
     \<lparr>nrows = 1,
      cols = [(''ts'', [Str ''t0'']), (''subject_id'', [Str ''NF009'']), (''cppall'', [Num 1])]\<rparr>"

definition drift_listing :: "(string \<times> node) list option" where
  "drift_listing = Some [(''NF009'', Folder [(''s1.parquet'', Some example_drift)])]"

definition example_hole :: dataframe where
  "example_hole =
     \<lparr>nrows = 3,
      cols = [(''ts'', [Str ''t2'', Str ''t3'', Str ''t4'']),
              (''subject_id'', [Str ''PF002'', Str ''PF002'', Str ''PF002'']),
              (''week'', [Num 2, Num 2, NaN]), (''date'', [Str ''d1'', Str ''d1'', Str ''d2''])]
             @ map (\<lambda>c. (c, if c = ''oq'' then [NaN, NaN, NaN] else [Num 3, NaN, Num 7])) features
             @ [(''voicedRMS'', [Num 5, NaN, NaN])]\<rparr>"

definition hole_listing :: "(string \<times> node) list option" where
  "hole_listing = Some [(''PF002'', Folder [(''s1.parquet'', Some example_hole)])]"

text \<open>
  A fourth directory, with one file in which the feature \<open>level\<close> is a column of texts:
  two spell the number 1.5 and one spells \<^verbatim>\<open>nan\<close>.
\<close>

definition example_text :: dataframe where
  "example_text =
     \<lparr>nrows = 3,
      cols = [(''ts'', [Str ''t0'', Str ''t1'', Str ''t2'']),
              (''subject_id'', [Str ''NF007'', Str ''NF007'', Str ''NF007'']),
              (''week'', [Num 1, Num 1, Num 1]), (''date'', [Str ''d0'', Str ''d0'', Str ''d1''])]
             @ map (\<lambda>c. (c, if c = ''level'' then [Str ''1.5'', Str ''nan'', Str ''1.5'']
                             else [Num 3, NaN, Num 7])) features
             @ [(''voicedRMS'', [NaN, NaN, Num 2])]\<rparr>"

definition example_text_imputed :: dataframe where
  "example_text_imputed =
     \<lparr>nrows = 3,
      cols = [(''ts'', [Str ''t0'', Str ''t1'', Str ''t2'']),
              (''subject_id'', [Str ''NF007'', Str ''NF007'', Str ''NF007'']),
              (''week'', [Num 1, Num 1, Num 1]), (''date'', [Str ''d0'', Str ''d0'', Str ''d1''])]
             @ map (\<lambda>c. (c, if c = ''level'' then [Num (3 / 2), Num (3 / 2), Num (3 / 2)]
                             else [Num 3, Num 5, Num 7])) features
             @ [(''voicedRMS'', [NaN, NaN, Num 2])]\<rparr>"

definition text_listing :: "(string \<times> node) list option" where
  "text_listing = Some [(''NF007'', Folder [(''s1.parquet'', Some example_text)])]"

text \<open>
  The tables in which every feature column holds, once converted, at least one number.
\<close>

definition features_observed :: "float_conv \<Rightarrow> dataframe \<Rightarrow> bool" where
  "features_observed conv df \<longleftrightarrow>
     list_all (\<lambda>k. case column df k of
                      None \<Rightarrow> True
                    | Some v \<Rightarrow> list_ex (\<lambda>x. as_float conv x \<noteq> NaN) v)
              features"

section \<open>Facts about the library operations\<close>

subsection \<open>The median\<close>

lemma sort_eq_Nil_iff: "sort xs = [] \<longleftrightarrow> xs = []"
  by (metis length_sort length_0_conv)

lemma median_masked_standard:
  "observed v \<noteq> [] \<Longrightarrow> median_masked v = Some (standard_median (observed v))"
  by (simp add: median_masked_def standard_median_def Let_def sort_eq_Nil_iff)

lemma median_masked_None_iff: "median_masked v = None \<longleftrightarrow> observed v = []"
  by (simp add: median_masked_def Let_def sort_eq_Nil_iff)

subsection \<open>Projection on a list of labels\<close>

lemma column_None_iff: "column df c = None \<longleftrightarrow> c \<notin> set (colnames df)"
  by (simp add: column_def colnames_def map_of_eq_None_iff)

lemma filter_key_distinct:
  "distinct (map fst xs) \<Longrightarrow> map_of xs k = Some v \<Longrightarrow> filter (\<lambda>(n, w). n = k) xs = [(k, v)]"
proof (induction xs)
  case Nil
  then show ?case by simp
next
  case (Cons p xs)
  obtain a b where p: "p = (a, b)" by (cases p)
  show ?case
  proof (cases "a = k")
    case True
    with Cons.prems p have "k \<notin> fst ` set xs" "v = b" by auto
    then have "\<forall>q\<in>set xs. fst q \<noteq> k" by blast
    then have "filter (\<lambda>(n, w). n = k) xs = []"
      by (simp add: filter_empty_conv case_prod_unfold)
    with True p \<open>v = b\<close> show ?thesis by simp
  next
    case False
    with Cons p show ?thesis by simp
  qed
qed

lemma getitem_Inl:
  "\<not> set keys \<subseteq> set (colnames df) \<Longrightarrow>
   getitem df keys = Inl (KeyError (filter (\<lambda>k. k \<notin> set (colnames df)) keys))"
  by (auto simp: getitem_def Let_def filter_empty_conv)

lemma getitem_Inr:
  assumes "distinct (colnames df)" and "set keys \<subseteq> set (colnames df)"
  shows "getitem df keys = Inr \<lparr>nrows = nrows df, cols = map (\<lambda>k. (k, the (column df k))) keys\<rparr>"
proof -
  have "filter (\<lambda>(n, w). n = k) (cols df) = [(k, the (column df k))]" if "k \<in> set keys" for k
  proof -
    from that assms(2) have "k \<in> set (colnames df)" by auto
    then obtain v where "column df k = Some v"
      using column_None_iff[of df k] by (cases "column df k") auto
    with assms(1) show ?thesis
      by (simp add: filter_key_distinct column_def colnames_def)
  qed
  then have eq: "map (\<lambda>k. filter (\<lambda>(n, w). n = k) (cols df)) keys = map (\<lambda>k. [(k, the (column df k))]) keys"
    by simp
  have "concat (map (\<lambda>k. filter (\<lambda>(n, w). n = k) (cols df)) keys) = map (\<lambda>k. (k, the (column df k))) keys"
    unfolding eq by simp
  then have "concat (map (\<lambda>k. filter (\<lambda>(n, w). n = k) (cols df)) keys) = map (\<lambda>k. (k, the (column df k))) keys" .
  moreover have "filter (\<lambda>k. k \<notin> set (colnames df)) keys = []"
    using assms(2) by (auto simp: filter_empty_conv)
  ultimately show ?thesis
    by (simp add: getitem_def Let_def)
qed

lemma getitem_InrD: "getitem df keys = Inr P \<Longrightarrow> set keys \<subseteq> set (colnames df)"
  by (rule ccontr) (simp add: getitem_Inl)

subsection \<open>The imputer\<close>

lemma colnames_select [simp]: "colnames \<lparr>nrows = n, cols = map (\<lambda>k. (k, f k)) keys\<rparr> = keys"
  by (simp add: colnames_def comp_def)

lemma column_select:
  "column \<lparr>nrows = n, cols = map (\<lambda>k. (k, f k)) keys\<rparr> c = (if c \<in> set keys then Some (f c) else None)"
  by (simp add: column_def map_of_map_restrict restrict_map_def)

lemma transform_fit_case:
  "transform (fit M) M =
   concat (map (\<lambda>v. case median_masked v of None \<Rightarrow> [] | Some m \<Rightarrow> [map (fill m) v]) M)"
  by (simp add: transform_def fit_def zip_map1 zip_same_conv_map comp_def)

lemma case_median_masked:
  "(case median_masked v of None \<Rightarrow> a | Some m \<Rightarrow> f m) =
   (if observed v = [] then a else f (the (median_masked v)))"
  using median_masked_None_iff[of v] by (cases "median_masked v") simp_all

lemma transform_fit:
  "transform (fit M) M =
   concat (map (\<lambda>v. if observed v = [] then [] else [map (fill (the (median_masked v))) v]) M)"
  unfolding transform_fit_case case_median_masked ..

lemma length_transform_fit:
  "length (transform (fit M) M) = length (filter (\<lambda>v. observed v \<noteq> []) M)"
  unfolding transform_fit by (induction M) simp_all

lemma length_filter_eq_all:
  assumes "length (filter P xs) = length xs" and "x \<in> set xs"
  shows "P x"
proof (rule ccontr)
  assume "\<not> P x"
  with assms(2) have "length (filter P xs) < length xs"
    by (rule length_filter_less)
  with assms(1) show False by simp
qed

lemma transform_fit_full:
  assumes "\<forall>v\<in>set M. observed v \<noteq> []"
  shows "transform (fit M) M = map (\<lambda>v. map (fill (the (median_masked v))) v) M"
  unfolding transform_fit using assms by (induction M) simp_all

lemma transform_fit_dropped:
  assumes "v \<in> set M" and "observed v = []"
  shows "length (transform (fit M) M) < length M"
  unfolding length_transform_fit using assms
  by (simp add: length_filter_less)

lemma transform_fit_kept:
  assumes "length (transform (fit M) M) = length M"
  shows "\<forall>v\<in>set M. observed v \<noteq> []"
  using assms length_filter_eq_all[of "\<lambda>v. observed v \<noteq> []" M]
  unfolding length_transform_fit by blast

subsection \<open>Assignment of columns\<close>

lemma map_of_replace:
  "map_of (map (\<lambda>(n, w). if n = k then (n, a) else (n, w)) xs) c =
   (if c = k then (if k \<in> fst ` set xs then Some a else None) else map_of xs c)"
  by (induction xs) (force simp: image_iff)+

lemma set_column_present:
  assumes "k \<in> set (colnames df)"
  shows "colnames (set_column df k v) = colnames df"
    and "nrows (set_column df k v) = nrows df"
    and "column (set_column df k v) = (column df)(k \<mapsto> align (nrows df) v)"
proof -
  show "colnames (set_column df k v) = colnames df"
    using assms by (auto simp: set_column_def colnames_def)
  show "nrows (set_column df k v) = nrows df"
    by (simp add: set_column_def)
  have "column (set_column df k v) c = ((column df)(k \<mapsto> align (nrows df) v)) c" for c
    using assms by (simp add: set_column_def column_def colnames_def map_of_replace)
  then show "column (set_column df k v) = (column df)(k \<mapsto> align (nrows df) v)"
    by (rule ext)
qed

lemma fold_set_column:
  assumes "set ks \<subseteq> set (colnames df)"
  shows "colnames (fold (\<lambda>(k, (n, v)) d. set_column d k v) (zip ks cs) df) = colnames df
       \<and> nrows (fold (\<lambda>(k, (n, v)) d. set_column d k v) (zip ks cs) df) = nrows df
       \<and> column (fold (\<lambda>(k, (n, v)) d. set_column d k v) (zip ks cs) df)
           = (column df)(ks [\<mapsto>] map (\<lambda>c. align (nrows df) (snd c)) cs)"
  using assms
proof (induction ks arbitrary: cs df)
  case Nil
  then show ?case by simp
next
  case (Cons k ks)
  show ?case
  proof (cases cs)
    case Nil
    then show ?thesis by simp
  next
    case (Cons c cs')
    obtain n v where c: "c = (n, v)" by (cases c)
    from Cons.prems have k: "k \<in> set (colnames df)" and ks: "set ks \<subseteq> set (colnames df)"
      by auto
    from ks have ks': "set ks \<subseteq> set (colnames (set_column df k v))"
      by (simp add: set_column_present(1)[OF k])
    have step: "fold (\<lambda>(k, (n, v)) d. set_column d k v) (zip (k # ks) (c # cs')) df
                = fold (\<lambda>(k, (n, v)) d. set_column d k v) (zip ks cs') (set_column df k v)"
      by (simp add: c)
    have upd: "(column df)(k # ks [\<mapsto>] map (\<lambda>c. align (nrows df) (snd c)) (c # cs'))
               = ((column df)(k \<mapsto> align (nrows df) v))(ks [\<mapsto>] map (\<lambda>c. align (nrows df) (snd c)) cs')"
      by (simp add: c)
    note IH' = Cons.IH[OF ks', of cs', unfolded set_column_present[OF k]]
    show ?thesis
      unfolding Cons step upd by (rule IH')
  qed
qed

lemma map_upds_map_same:
  "(m(ks [\<mapsto>] map f ks)) c = (if c \<in> set ks then Some (f c) else m c)"
  by (induction ks arbitrary: m) auto

lemma align_id: "length v = n \<Longrightarrow> align n v = v"
  by (simp add: align_def)

subsection \<open>The fixed column lists and well-formed tables\<close>

lemma distinct_columns_to_keep: "distinct columns_to_keep"
  by (simp add: columns_to_keep_def)

lemma distinct_features: "distinct features"
  by (simp add: features_def)

lemma features_subset: "set features \<subseteq> set columns_to_keep"
  by (simp add: features_def columns_to_keep_def)

lemma length_features: "length features = 16"
  by (simp add: features_def)

lemma length_columns_to_keep: "length columns_to_keep = 21"
  by (simp add: columns_to_keep_def)

lemma zip_map_same: "zip xs (map f xs) = map (\<lambda>x. (x, f x)) xs"
  by (induction xs) simp_all

lemma column_Some_iff: "(\<exists>v. column df c = Some v) \<longleftrightarrow> c \<in> set (colnames df)"
  using column_None_iff[of df c] by auto

lemma wf_column_length: "wf_frame df \<Longrightarrow> column df c = Some v \<Longrightarrow> length v = nrows df"
  by (auto simp: wf_frame_def column_def list_all_iff dest!: map_of_SomeD)

text \<open>Projection of a well-formed table on distinct labels.\<close>

lemma getitem_wf:
  assumes "wf_frame df" and "getitem df keys = Inr P" and "distinct keys"
  shows "wf_frame P" and "colnames P = keys" and "nrows P = nrows df"
    and "\<And>c. column P c = (if c \<in> set keys then column df c else None)"
proof -
  from assms(2) have sub: "set keys \<subseteq> set (colnames df)" by (rule getitem_InrD)
  from assms(1) have d: "distinct (colnames df)" by (simp add: wf_frame_def)
  from getitem_Inr[OF d sub] assms(2)
  have P: "P = \<lparr>nrows = nrows df, cols = map (\<lambda>k. (k, the (column df k))) keys\<rparr>" by simp
  show cn: "colnames P = keys" by (simp add: P)
  show "nrows P = nrows df" by (simp add: P)
  show col: "column P c = (if c \<in> set keys then column df c else None)" for c
  proof (cases "c \<in> set keys")
    case True
    with sub obtain v where "column df c = Some v"
      using column_Some_iff[of df c] by auto
    with True show ?thesis by (simp add: P column_select)
  next
    case False
    then show ?thesis by (simp add: P column_select)
  qed
  have "length v = nrows P" if "(n, v) \<in> set (cols P)" for n v
  proof -
    from that have "n \<in> set keys" and v: "v = the (column df n)" by (auto simp: P)
    with sub obtain w where w: "column df n = Some w"
      using column_Some_iff[of df n] by auto
    with assms(1) have "length w = nrows df" by (rule wf_column_length)
    with v w show ?thesis by (simp add: P)
  qed
  with cn assms(3) show "wf_frame P"
    by (auto simp: wf_frame_def list_all_iff)
qed

subsection \<open>Lines 38-43 as a whole\<close>

lemma features_matrix:
  assumes "wf_frame P" and "set features \<subseteq> set (colnames P)"
  shows "getitem P features = Inr \<lparr>nrows = nrows P, cols = map (\<lambda>k. (k, the (column P k))) features\<rparr>"
  using assms by (simp add: getitem_Inr wf_frame_def)

lemma DataFrame_getitem_same:
  assumes "distinct keys"
  shows "getitem \<lparr>nrows = n, cols = map (\<lambda>k. (k, f k)) keys\<rparr> keys
         = Inr \<lparr>nrows = n, cols = map (\<lambda>k. (k, f k)) keys\<rparr>"
proof -
  let ?D = "\<lparr>nrows = n, cols = map (\<lambda>k. (k, f k)) keys\<rparr>"
  have "getitem ?D keys = Inr \<lparr>nrows = nrows ?D, cols = map (\<lambda>k. (k, the (column ?D k))) keys\<rparr>"
    by (rule getitem_Inr) (simp_all add: assms)
  moreover have "map (\<lambda>k. (k, the (column ?D k))) keys = map (\<lambda>k. (k, f k)) keys"
    by (simp add: column_select)
  ultimately show ?thesis by simp
qed

lemma float_matrix:
  assumes "set features \<subseteq> set (colnames P)"
  shows "map (map (as_float conv)) (map (\<lambda>k. the (column P k)) features)
         = map (float_column conv P) features"
proof -
  have "map (as_float conv) (the (column P k)) = float_column conv P k"
    if "k \<in> set features" for k
  proof -
    from that assms obtain v where "column P k = Some v"
      using column_Some_iff[of P k] by auto
    then show ?thesis by (simp add: float_column_def)
  qed
  then show ?thesis by simp
qed

lemma float_column_Some: "column P k = Some v \<Longrightarrow> float_column conv P k = map (as_float conv) v"
  by (simp add: float_column_def)

text \<open>The imputation stage when every feature column has an observed value.\<close>

lemma impute_features_full:
  assumes wf: "wf_frame P" and sub: "set features \<subseteq> set (colnames P)"
    and num: "\<not> list_ex (list_ex (unconvertible conv)) (map (\<lambda>k. the (column P k)) features)"
    and fin: "\<not> list_ex (list_ex (infinite_cell conv)) (map (\<lambda>k. the (column P k)) features)"
    and rows: "nrows P \<noteq> 0"
    and obs: "\<forall>k\<in>set features. observed (float_column conv P k) \<noteq> []"
  shows "impute_features conv P =
         Inr (fold (\<lambda>(k, (n, v)) d. set_column d k v)
               (zip features
                 (map (\<lambda>k. (k, map (fill (the (median_masked (float_column conv P k))))
                                  (float_column conv P k))) features)) P)"
proof -
  let ?M = "map (\<lambda>k. the (column P k)) features"
  let ?A = "map (float_column conv P) features"
  let ?g = "\<lambda>k. map (fill (the (median_masked (float_column conv P k)))) (float_column conv P k)"
  let ?X = "\<lparr>nrows = nrows P, cols = map (\<lambda>k. (k, the (column P k))) features\<rparr>"
  have X: "getitem P features = Inr ?X" by (rule features_matrix[OF wf sub])
  have M: "map snd (cols ?X) = ?M" by (simp add: comp_def)
  have A: "map (map (as_float conv)) ?M = ?A" by (rule float_matrix[OF sub])
  have nonempty: "?M \<noteq> []" by (simp add: features_def)
  from obs have "\<forall>v\<in>set ?A. observed v \<noteq> []" by simp
  then have tr: "transform (fit ?A) ?A = map ?g features"
    by (simp add: transform_fit_full comp_def)
  have ft: "fit_transform conv ?X = Inr (nrows P, map ?g features)"
    using num fin rows nonempty unfolding fit_transform_def M Let_def A tr by simp
  have D: "DataFrame (nrows P, map ?g features) features
           = Inr \<lparr>nrows = nrows P, cols = map (\<lambda>k. (k, ?g k)) features\<rparr>"
    by (simp add: DataFrame_def zip_map_same)
  have V: "getitem \<lparr>nrows = nrows P, cols = map (\<lambda>k. (k, ?g k)) features\<rparr> features
           = Inr \<lparr>nrows = nrows P, cols = map (\<lambda>k. (k, ?g k)) features\<rparr>"
    by (rule DataFrame_getitem_same[OF distinct_features])
  show ?thesis
    by (simp add: impute_features_def X ft D V setitem_def)
qed

text \<open>The imputation stage when some feature column has no observed value.\<close>

lemma impute_features_dropped:
  assumes wf: "wf_frame P" and sub: "set features \<subseteq> set (colnames P)"
    and num: "\<not> list_ex (list_ex (unconvertible conv)) (map (\<lambda>k. the (column P k)) features)"
    and fin: "\<not> list_ex (list_ex (infinite_cell conv)) (map (\<lambda>k. the (column P k)) features)"
    and rows: "nrows P \<noteq> 0"
    and c: "c \<in> set features" and empty: "observed (float_column conv P c) = []"
  shows "impute_features conv P =
         Inl (ShapeMismatch
               (length (filter (\<lambda>k. observed (float_column conv P k) \<noteq> []) features)) 16)"
    and "length (filter (\<lambda>k. observed (float_column conv P k) \<noteq> []) features) < 16"
proof -
  let ?M = "map (\<lambda>k. the (column P k)) features"
  let ?A = "map (float_column conv P) features"
  let ?X = "\<lparr>nrows = nrows P, cols = map (\<lambda>k. (k, the (column P k))) features\<rparr>"
  let ?n = "length (filter (\<lambda>k. observed (float_column conv P k) \<noteq> []) features)"
  have X: "getitem P features = Inr ?X" by (rule features_matrix[OF wf sub])
  have M: "map snd (cols ?X) = ?M" by (simp add: comp_def)
  have A: "map (map (as_float conv)) ?M = ?A" by (rule float_matrix[OF sub])
  have nonempty: "?M \<noteq> []" by (simp add: features_def)
  have len: "length (transform (fit ?A) ?A) = ?n"
    by (simp add: length_transform_fit length_filter_map comp_def)
  from c have "?n < length features"
    using empty by (intro length_filter_less[of c]) simp_all
  then show less: "?n < 16" by (simp add: length_features)
  have ft: "fit_transform conv ?X = Inr (nrows P, transform (fit ?A) ?A)"
    using num fin rows nonempty unfolding fit_transform_def M Let_def A by simp
  have D: "DataFrame (nrows P, transform (fit ?A) ?A) features = Inl (ShapeMismatch ?n 16)"
    using less by (simp add: DataFrame_def len length_features)
  show "impute_features conv P = Inl (ShapeMismatch ?n 16)"
    by (simp add: impute_features_def X ft D)
qed

lemma impute_features_nonnumeric:
  assumes wf: "wf_frame P" and sub: "set features \<subseteq> set (colnames P)"
    and num: "list_ex (list_ex (unconvertible conv)) (map (\<lambda>k. the (column P k)) features)"
  shows "impute_features conv P = Inl NonNumericData"
proof -
  let ?X = "\<lparr>nrows = nrows P, cols = map (\<lambda>k. (k, the (column P k))) features\<rparr>"
  have X: "getitem P features = Inr ?X" by (rule features_matrix[OF wf sub])
  have M: "map snd (cols ?X) = map (\<lambda>k. the (column P k)) features" by (simp add: comp_def)
  have ft: "fit_transform conv ?X = Inl NonNumericData"
    using num unfolding fit_transform_def M Let_def by simp
  show ?thesis by (simp add: impute_features_def X ft)
qed

lemma impute_features_infinite:
  assumes wf: "wf_frame P" and sub: "set features \<subseteq> set (colnames P)"
    and num: "\<not> list_ex (list_ex (unconvertible conv)) (map (\<lambda>k. the (column P k)) features)"
    and fin: "list_ex (list_ex (infinite_cell conv)) (map (\<lambda>k. the (column P k)) features)"
  shows "impute_features conv P = Inl InfiniteValue"
proof -
  let ?X = "\<lparr>nrows = nrows P, cols = map (\<lambda>k. (k, the (column P k))) features\<rparr>"
  have X: "getitem P features = Inr ?X" by (rule features_matrix[OF wf sub])
  have M: "map snd (cols ?X) = map (\<lambda>k. the (column P k)) features" by (simp add: comp_def)
  have ft: "fit_transform conv ?X = Inl InfiniteValue"
    using num fin unfolding fit_transform_def M Let_def by simp
  show ?thesis by (simp add: impute_features_def X ft)
qed

lemma impute_features_no_rows:
  assumes wf: "wf_frame P" and sub: "set features \<subseteq> set (colnames P)"
    and num: "\<not> list_ex (list_ex (unconvertible conv)) (map (\<lambda>k. the (column P k)) features)"
    and fin: "\<not> list_ex (list_ex (infinite_cell conv)) (map (\<lambda>k. the (column P k)) features)"
    and rows: "nrows P = 0"
  shows "impute_features conv P = Inl NoSamples"
proof -
  let ?X = "\<lparr>nrows = nrows P, cols = map (\<lambda>k. (k, the (column P k))) features\<rparr>"
  have X: "getitem P features = Inr ?X" by (rule features_matrix[OF wf sub])
  have M: "map snd (cols ?X) = map (\<lambda>k. the (column P k)) features" by (simp add: comp_def)
  have ft: "fit_transform conv ?X = Inl NoSamples"
    using num fin rows unfolding fit_transform_def M Let_def by simp
  show ?thesis by (simp add: impute_features_def X ft)
qed

lemma impute_features_InrD:
  assumes wf: "wf_frame P" and sub: "set features \<subseteq> set (colnames P)"
    and ok: "impute_features conv P = Inr Q"
  shows "\<not> list_ex (list_ex (unconvertible conv)) (map (\<lambda>k. the (column P k)) features)"
    and "\<not> list_ex (list_ex (infinite_cell conv)) (map (\<lambda>k. the (column P k)) features)"
    and "nrows P \<noteq> 0"
    and "\<forall>k\<in>set features. observed (float_column conv P k) \<noteq> []"
proof -
  show num: "\<not> list_ex (list_ex (unconvertible conv)) (map (\<lambda>k. the (column P k)) features)"
    using impute_features_nonnumeric[OF wf sub] ok by auto
  show fin: "\<not> list_ex (list_ex (infinite_cell conv)) (map (\<lambda>k. the (column P k)) features)"
    using impute_features_infinite[OF wf sub num] ok by auto
  show rows: "nrows P \<noteq> 0"
    using impute_features_no_rows[OF wf sub num fin] ok by auto
  show "\<forall>k\<in>set features. observed (float_column conv P k) \<noteq> []"
    using impute_features_dropped(1)[OF wf sub num fin rows] ok by auto
qed

lemma impute_features_columns:
  assumes wf: "wf_frame P" and sub: "set features \<subseteq> set (colnames P)"
    and ok: "impute_features conv P = Inr Q"
  shows "colnames Q = colnames P"
    and "nrows Q = nrows P"
    and "\<And>c. column Q c =
          (if c \<in> set features
           then Some (map (fill (the (median_masked (float_column conv P c))))
                          (float_column conv P c))
           else column P c)"
proof -
  let ?g = "\<lambda>k. map (fill (the (median_masked (float_column conv P k)))) (float_column conv P k)"
  let ?F = "fold (\<lambda>(k, (n, v)) d. set_column d k v) (zip features (map (\<lambda>k. (k, ?g k)) features)) P"
  note D = impute_features_InrD[OF wf sub ok]
  from impute_features_full[OF wf sub D] ok have Q: "Q = ?F" by simp
  note F = fold_set_column[OF sub, of "map (\<lambda>k. (k, ?g k)) features"]
  show "colnames Q = colnames P" using F by (simp add: Q)
  show "nrows Q = nrows P" using F by (simp add: Q)
  have col: "column Q = (column P)(features [\<mapsto>] map (\<lambda>k. align (nrows P) (?g k)) features)"
    using F by (simp add: Q comp_def)
  show "column Q c = (if c \<in> set features then Some (?g c) else column P c)" for c
  proof (cases "c \<in> set features")
    case True
    with sub obtain v where v: "column P c = Some v"
      using column_Some_iff[of P c] by auto
    with wf have "length v = nrows P" by (rule wf_column_length)
    with v have "align (nrows P) (?g c) = ?g c"
      by (simp add: align_id float_column_Some)
    with True show ?thesis by (simp add: col map_upds_map_same)
  next
    case False
    then show ?thesis by (simp add: col map_upds_map_same)
  qed
qed

subsection \<open>Concatenation\<close>

lemma distinct_union_columns: "distinct (union_columns ns)"
  by (simp add: union_columns_def)

lemma set_union_columns: "set (union_columns ns) = set ns"
  by (simp add: union_columns_def)

lemma length_column_or_nan: "wf_frame df \<Longrightarrow> length (column_or_nan df c) = nrows df"
  by (auto simp: column_or_nan_def wf_column_length split: option.splits)

lemma length_concat_columns:
  "\<forall>df\<in>set dfs. wf_frame df \<Longrightarrow>
   length (concat (map (\<lambda>df. column_or_nan df c) dfs)) = sum_list (map nrows dfs)"
  by (induction dfs) (simp_all add: length_column_or_nan)


lemma pd_concat_Inr:
  assumes "dfs \<noteq> []"
  shows "pd_concat dfs =
         Inr \<lparr>nrows = sum_list (map nrows dfs),
              cols = map (\<lambda>c. (c, concat (map (\<lambda>df. column_or_nan df c) dfs)))
                         (union_columns (concat (map colnames dfs)))\<rparr>"
  using assms by (simp add: pd_concat_def)

lemma pd_concat_InrD: "pd_concat dfs = Inr T \<Longrightarrow> dfs \<noteq> []"
  by (auto simp: pd_concat_def)

lemma pd_concat_wf:
  assumes "\<forall>df\<in>set dfs. wf_frame df" and "pd_concat dfs = Inr T"
  shows "wf_frame T"
    and "nrows T = sum_list (map nrows dfs)"
    and "set (colnames T) = (\<Union>df\<in>set dfs. set (colnames df))"
    and "\<And>c. c \<in> set (colnames T) \<Longrightarrow> column T c = Some (concat (map (\<lambda>df. column_or_nan df c) dfs))"
proof -
  from assms(2) have ne: "dfs \<noteq> []" by (rule pd_concat_InrD)
  from pd_concat_Inr[OF ne] assms(2)
  have T: "T = \<lparr>nrows = sum_list (map nrows dfs),
              cols = map (\<lambda>c. (c, concat (map (\<lambda>df. column_or_nan df c) dfs)))
                         (union_columns (concat (map colnames dfs)))\<rparr>" by simp
  show "nrows T = sum_list (map nrows dfs)" by (simp add: T)
  have cn: "colnames T = union_columns (concat (map colnames dfs))" by (simp add: T)
  then show "set (colnames T) = (\<Union>df\<in>set dfs. set (colnames df))"
    by (simp add: set_union_columns)
  show "column T c = Some (concat (map (\<lambda>df. column_or_nan df c) dfs))"
    if "c \<in> set (colnames T)" for c
    using that unfolding cn by (simp add: T column_select)
  show "wf_frame T"
    using assms(1)
    by (auto simp: wf_frame_def cn distinct_union_columns T list_all_iff length_concat_columns)
qed

subsection \<open>The run\<close>


lemma pipeline_projection_error:
  "pd_concat dfs = Inr T \<Longrightarrow> getitem T columns_to_keep = Inl e \<Longrightarrow>
   pipeline conv fs dfs = (Some e, fs)"
  by (simp add: pipeline_def)

lemma pipeline_imputation_error:
  "pd_concat dfs = Inr T \<Longrightarrow> getitem T columns_to_keep = Inr P \<Longrightarrow>
   impute_features conv P = Inl e \<Longrightarrow>
   pipeline conv fs dfs = (Some e, fs\<lparr>all_data := Some P\<rparr>)"
  by (simp add: pipeline_def)

lemma pipeline_complete:
  "pd_concat dfs = Inr T \<Longrightarrow> getitem T columns_to_keep = Inr P \<Longrightarrow>
   impute_features conv P = Inr Q \<Longrightarrow>
   pipeline conv fs dfs = (None, fs\<lparr>all_data := Some P, all_data_imputed := Some Q\<rparr>)"
  by (simp add: pipeline_def)

lemma pipeline_NoneD:
  assumes "pipeline conv fs dfs = (None, fs')"
  shows "\<exists>T P Q. pd_concat dfs = Inr T \<and> getitem T columns_to_keep = Inr P
           \<and> impute_features conv P = Inr Q
           \<and> fs' = fs\<lparr>all_data := Some P, all_data_imputed := Some Q\<rparr>"
  using assms by (auto simp: pipeline_def Let_def split: sum.splits)

lemma main_discovered:
  "discover listing = Inr dfs \<Longrightarrow> main conv fs listing = pipeline conv fs dfs"
  by (simp add: main_def)


text \<open>The projection of the consolidated table, when it has the columns of the list.\<close>

lemma projection_ok:
  assumes wf: "\<forall>df\<in>set dfs. wf_frame df" and T: "pd_concat dfs = Inr T"
    and sub: "set columns_to_keep \<subseteq> set (colnames T)"
  obtains P where "getitem T columns_to_keep = Inr P" and "wf_frame P"
    and "colnames P = columns_to_keep" and "nrows P = nrows T"
    and "\<And>c. column P c = (if c \<in> set columns_to_keep then column T c else None)"
    and "set features \<subseteq> set (colnames P)"
proof -
  have wfT: "wf_frame T" by (rule pd_concat_wf(1)[OF wf T])
  then have d: "distinct (colnames T)" by (simp add: wf_frame_def)
  from getitem_Inr[OF d sub] obtain P where P: "getitem T columns_to_keep = Inr P" by blast
  note G = getitem_wf[OF wfT P distinct_columns_to_keep]
  have "set features \<subseteq> set (colnames P)" by (simp add: G(2) features_subset)
  with that[OF P G] show thesis by blast
qed

lemma run_success:
  assumes disc: "discover listing = Inr dfs"
    and wf: "\<forall>df\<in>set dfs. wf_frame df"
    and ok: "main conv fs listing = (None, fs')"
  obtains T P Q where
    "pd_concat dfs = Inr T" and "wf_frame T"
    and "getitem T columns_to_keep = Inr P" and "wf_frame P"
    and "colnames P = columns_to_keep" and "nrows P = nrows T"
    and "\<And>c. column P c = (if c \<in> set columns_to_keep then column T c else None)"
    and "impute_features conv P = Inr Q"
    and "fs' = fs\<lparr>all_data := Some P, all_data_imputed := Some Q\<rparr>"
    and "colnames Q = columns_to_keep" and "nrows Q = nrows P"
    and "\<And>c. column Q c =
          (if c \<in> set features
           then Some (map (fill (the (median_masked (float_column conv P c))))
                          (float_column conv P c))
           else column P c)"
    and "\<forall>k\<in>set features. observed (float_column conv P k) \<noteq> []"
    and "nrows P \<noteq> 0"
proof -
  from ok disc have "pipeline conv fs dfs = (None, fs')" by (simp add: main_discovered)
  then obtain T P Q where T: "pd_concat dfs = Inr T"
    and P: "getitem T columns_to_keep = Inr P"
    and Q: "impute_features conv P = Inr Q"
    and fs': "fs' = fs\<lparr>all_data := Some P, all_data_imputed := Some Q\<rparr>"
    using pipeline_NoneD by blast
  have wfT: "wf_frame T" by (rule pd_concat_wf(1)[OF wf T])
  note G = getitem_wf[OF wfT P distinct_columns_to_keep]
  have sub: "set features \<subseteq> set (colnames P)"
    by (simp add: G(2) features_subset)
  note I = impute_features_columns[OF G(1) sub Q]
  note D = impute_features_InrD[OF G(1) sub Q]
  show thesis
    using that[OF T wfT P G(1) G(2) G(3) G(4) Q fs' _ I(2) I(3) D(4) D(3)] I(1) G(2)
    by simp
qed

text \<open>Cells of the float array and of the filled array.\<close>

lemma as_float_not_text: "as_float conv x = NaN \<or> (\<exists>r. as_float conv x = Num r)"
  by (cases x) (auto split: parsed.splits)

lemma as_float_Num [simp]: "as_float conv (Num r) = Num r"
  by simp

lemma observed_empty_iff: "observed v = [] \<longleftrightarrow> (\<forall>x\<in>set v. \<forall>r. x \<noteq> Num r)"
  by (induction v rule: observed.induct) auto

lemma observed_float_nonempty:
  "observed (map (as_float conv) v) \<noteq> [] \<longleftrightarrow> list_ex (\<lambda>x. as_float conv x \<noteq> NaN) v"
proof -
  have "(\<exists>r. as_float conv x = Num r) \<longleftrightarrow> as_float conv x \<noteq> NaN" for x
    using as_float_not_text[of conv x] by auto
  then show ?thesis
    by (auto simp: observed_empty_iff list_ex_iff)
qed

lemma all_missing_observed:
  "set v \<subseteq> {NaN} \<Longrightarrow> observed (map (as_float conv) v) = []"
  by (auto simp: observed_empty_iff)

lemma fill_unfold: "map (fill m) v = map (\<lambda>x. if x = NaN then Num m else x) v"
  by (simp add: fill_def)

lemma fill_not_NaN: "NaN \<notin> set (map (fill m) v)"
  by (auto simp: fill_def)

lemma fill_Num [simp]: "fill m (Num r) = Num r"
  by (simp add: fill_def)

text \<open>The validation predicates on the feature columns of a projected table.\<close>

lemma convertible_matrix:
  assumes conv: "features_convertible conv T"
    and same: "\<And>c. c \<in> set features \<Longrightarrow> column P c = column T c"
    and sub: "set features \<subseteq> set (colnames P)"
  shows "\<not> list_ex (list_ex (unconvertible conv)) (map (\<lambda>k. the (column P k)) features)"
    and "\<not> list_ex (list_ex (infinite_cell conv)) (map (\<lambda>k. the (column P k)) features)"
proof -
  have ok: "\<not> list_ex (unconvertible conv) (the (column P k))
          \<and> \<not> list_ex (infinite_cell conv) (the (column P k))" if "k \<in> set features" for k
  proof -
    from that sub obtain v where v: "column P k = Some v"
      using column_Some_iff[of P k] by auto
    with same[OF that] have "column T k = Some v" by simp
    with conv that v show ?thesis
      by (auto simp: features_convertible_def list_all_iff)
  qed
  show "\<not> list_ex (list_ex (unconvertible conv)) (map (\<lambda>k. the (column P k)) features)"
    using ok by (auto simp: list_ex_iff)
  show "\<not> list_ex (list_ex (infinite_cell conv)) (map (\<lambda>k. the (column P k)) features)"
    using ok by (auto simp: list_ex_iff)
qed

subsection \<open>The example runs, evaluated\<close>

lemma ex_discover: "discover example_listing = Inr [example_nf, example_pf]"
  by (simp add: example_listing_def discover_def startswith_def endswith_def)

lemma ex_wf: "wf_frame example_nf" "wf_frame example_pf"
  by (simp_all add: example_nf_def example_pf_def wf_frame_def colnames_def features_def)

lemma ex_concat: "pd_concat [example_nf, example_pf] = Inr example_concat"
  by (simp add: pd_concat_def example_nf_def example_pf_def example_concat_def
      union_columns_def colnames_def column_or_nan_def column_def features_def
      numeral_3_eq_3)

lemma ex_project: "getitem example_concat columns_to_keep = Inr example_raw"
  by (simp add: getitem_def example_concat_def example_raw_def colnames_def
      columns_to_keep_def features_def)

lemma ex_median: "median_masked [Num 1, NaN, Num 3, NaN, Num 7] = Some 3"
  by (simp add: median_masked_def Let_def)

lemma ex_impute: "impute_features example_conv example_raw = Inr example_imputed"
  by (simp add: impute_features_def getitem_def fit_transform_def DataFrame_def setitem_def
      set_column_def align_def transform_def fit_def fill_def ex_median Let_def
      example_raw_def example_imputed_def colnames_def features_def)

lemma ex_main:
  "main example_conv no_files example_listing
   = (None, \<lparr>all_data = Some example_raw, all_data_imputed = Some example_imputed\<rparr>)"
  by (simp add: main_def ex_discover pipeline_def ex_concat ex_project ex_impute no_files_def)

lemma ex_drift_discover: "discover drift_listing = Inr [example_drift]"
  by (simp add: drift_listing_def discover_def startswith_def endswith_def)

lemma ex_drift_concat: "pd_concat [example_drift] = Inr example_drift"
  by (simp add: pd_concat_def example_drift_def union_columns_def colnames_def
      column_or_nan_def column_def)

lemma ex_hole_discover: "discover hole_listing = Inr [example_hole]"
  by (simp add: hole_listing_def discover_def startswith_def endswith_def)

lemma ex_hole_wf: "wf_frame example_hole"
  by (simp add: example_hole_def wf_frame_def colnames_def features_def)

lemma ex_hole_concat: "pd_concat [example_hole] = Inr example_hole"
  by (simp add: pd_concat_def example_hole_def union_columns_def colnames_def
      column_or_nan_def column_def features_def)

lemma ex_hole_colnames: "colnames example_hole = columns_to_keep"
  by (simp add: example_hole_def colnames_def features_def columns_to_keep_def)

lemma ex_hole_convertible: "features_convertible example_conv example_hole"
  by (simp add: features_convertible_def example_hole_def column_def features_def)

lemma ex_hole_project: "getitem example_hole columns_to_keep = Inr example_hole"
  by (simp add: getitem_def example_hole_def colnames_def columns_to_keep_def features_def)

lemma ex_hole_medians:
  "median_masked [Num 3, NaN, Num 7] = Some 5" "median_masked [NaN, NaN, NaN] = None"
  by (simp_all add: median_masked_def Let_def)

lemma ex_hole_impute: "impute_features example_conv example_hole = Inl (ShapeMismatch 15 16)"
  by (simp add: impute_features_def getitem_def fit_transform_def DataFrame_def
      transform_def fit_def ex_hole_medians Let_def
      example_hole_def colnames_def features_def)

lemma ex_hole_main:
  "main example_conv no_files hole_listing
   = (Some (ShapeMismatch 15 16), \<lparr>all_data = Some example_hole, all_data_imputed = None\<rparr>)"
  by (simp add: main_def ex_hole_discover pipeline_def ex_hole_concat ex_hole_project
      ex_hole_impute no_files_def)

lemma ex_text_discover: "discover text_listing = Inr [example_text]"
  by (simp add: text_listing_def discover_def startswith_def endswith_def)

lemma ex_text_wf: "wf_frame example_text"
  by (simp add: example_text_def wf_frame_def colnames_def features_def)

lemma ex_text_concat: "pd_concat [example_text] = Inr example_text"
  by (simp add: pd_concat_def example_text_def union_columns_def colnames_def
      column_or_nan_def column_def features_def)

lemma ex_text_colnames: "colnames example_text = columns_to_keep"
  by (simp add: example_text_def colnames_def features_def columns_to_keep_def)

lemma ex_text_convertible: "features_convertible example_conv example_text"
  by (simp add: features_convertible_def example_text_def column_def features_def
      example_conv_def)

lemma ex_text_observed: "features_observed example_conv example_text"
  by (simp add: features_observed_def example_text_def column_def features_def
      example_conv_def)

lemma ex_text_project: "getitem example_text columns_to_keep = Inr example_text"
  by (simp add: getitem_def example_text_def colnames_def columns_to_keep_def features_def)

lemma ex_text_medians:
  "median_masked [Num (3 / 2), NaN, Num (3 / 2)] = Some (3 / 2)"
  by (simp add: median_masked_def Let_def)

lemma ex_text_impute: "impute_features example_conv example_text = Inr example_text_imputed"
  by (simp add: impute_features_def getitem_def fit_transform_def DataFrame_def setitem_def
      set_column_def align_def transform_def fit_def fill_def ex_hole_medians ex_text_medians
      Let_def example_conv_def
      example_text_def example_text_imputed_def colnames_def features_def)

lemma ex_text_main:
  "main example_conv no_files text_listing
   = (None, \<lparr>all_data = Some example_text, all_data_imputed = Some example_text_imputed\<rparr>)"
  by (simp add: main_def ex_text_discover pipeline_def ex_text_concat ex_text_project
      ex_text_impute no_files_def)








lemma impute_features_empty_column:
  assumes wf: "wf_frame P" and sub: "set features \<subseteq> set (colnames P)"
    and c: "c \<in> set features" and empty: "observed (float_column conv P c) = []"
  shows "\<exists>e. impute_features conv P = Inl e"
proof (cases "impute_features conv P")
  case (Inl e)
  then show ?thesis by blast
next
  case (Inr Q)
  from impute_features_InrD(4)[OF wf sub Inr] c empty show ?thesis by blast
qed



section \<open>The claims\<close>

text \<open>
  C3. The value the imputer computes for a column is the standard median of the column's
  non-missing values: the middle value of the sorted values, the average of the two
  middle values when their number is even. For the column \<open>[1, 3, missing, 7]\<close> the
  imputed value is \<open>3\<close>, and for \<open>[2, 4, missing, missing]\<close> it is \<open>3\<close>.
  (Numbers are real numbers here; both examples are exact in binary floating point.)
\<close>

theorem median_correctness:
  "(j < length M \<and> observed (M ! j) \<noteq> [] \<longrightarrow>
      fit M ! j = Some (standard_median (observed (M ! j))))
   \<and> fit [[Num 1, Num 3, NaN, Num 7]] = [Some 3]
   \<and> transform (fit [[Num 1, Num 3, NaN, Num 7]]) [[Num 1, Num 3, NaN, Num 7]]
       = [[Num 1, Num 3, Num 3, Num 7]]
   \<and> fit [[Num 2, Num 4, NaN, NaN]] = [Some 3]
   \<and> transform (fit [[Num 2, Num 4, NaN, NaN]]) [[Num 2, Num 4, NaN, NaN]]
       = [[Num 2, Num 4, Num 3, Num 3]]"
proof -
  have general: "j < length M \<and> observed (M ! j) \<noteq> [] \<longrightarrow>
      fit M ! j = Some (standard_median (observed (M ! j)))"
    by (simp add: fit_def median_masked_standard)
  have m1: "median_masked [Num 1, Num 3, NaN, Num 7] = Some 3"
    by (simp add: median_masked_def Let_def)
  have m2: "median_masked [Num 2, Num 4, NaN, NaN] = Some 3"
    by (simp add: median_masked_def Let_def)
  show ?thesis
    using general by (simp add: fit_def transform_def fill_def m1 m2)
qed

theorem median_correctness_witness:
  "(0::nat) < length [[Num 5, NaN, Num 1, Num 2, Num 8], [NaN, Num 4]]
   \<and> observed ([[Num 5, NaN, Num 1, Num 2, Num 8], [NaN, Num 4]] ! 0) \<noteq> []
   \<and> fit [[Num 5, NaN, Num 1, Num 2, Num 8], [NaN, Num 4]] ! 0 = Some (7 / 2)
   \<and> standard_median [5, 1, 2, 8] = 7 / 2"
proof -
  have s: "standard_median [5, 1, 2, 8] = 7 / 2"
    by (simp add: standard_median_def Let_def)
  show ?thesis
    using median_correctness [of 0 "[[Num 5, NaN, Num 1, Num 2, Num 8], [NaN, Num 4]]"] s
    by simp
qed

text \<open>
  C7, as the specification states it: with no input file discovered, the concatenation
  produces an empty table of 0 rows. The code does not: on the empty root directory the
  list \<^verbatim>\<open>dfs\<close> is empty and \<^verbatim>\<open>pd.concat\<close> raises instead of returning a table.
\<close>

theorem zero_files_counterexample:
  "discover (Some []) = Inr [] \<and> pd_concat [] = Inl NoObjectsToConcatenate"
  by (simp add: discover_def pd_concat_def)

text \<open>
  C7, amended: when no input file is discovered, the concatenation raises the error
  "No objects to concatenate"; the run ends there with that error, and neither output
  file is written.
\<close>

theorem zero_files_abort:
  "discover listing = Inr [] \<Longrightarrow>
   pd_concat [] = Inl NoObjectsToConcatenate
   \<and> main conv fs listing = (Some NoObjectsToConcatenate, fs)"
  by (simp add: main_def pipeline_def pd_concat_def)

theorem zero_files_abort_witness:
  "discover (Some [(''NF001'', Folder [(''notes.txt'', None)]), (''PF_readme'', NotADir),
                   (''XX002'', Folder [(''a.parquet'', None)])]) = Inr []
   \<and> main example_conv \<lparr>all_data = None, all_data_imputed = None\<rparr>
        (Some [(''NF001'', Folder [(''notes.txt'', None)]), (''PF_readme'', NotADir),
               (''XX002'', Folder [(''a.parquet'', None)])])
     = (Some NoObjectsToConcatenate, \<lparr>all_data = None, all_data_imputed = None\<rparr>)"
proof -
  have d: "discover (Some [(''NF001'', Folder [(''notes.txt'', None)]), (''PF_readme'', NotADir),
                   (''XX002'', Folder [(''a.parquet'', None)])]) = Inr []"
    by (simp add: discover_def startswith_def endswith_def)
  show ?thesis
    using d zero_files_abort [OF d, of example_conv "\<lparr>all_data = None, all_data_imputed = None\<rparr>"]
    by simp
qed

text \<open>
  C1, as the specification states it: every feature column that has a non-missing value
  in the consolidated table has no missing value in the final table. The code does not
  deliver that column by column. In the table below, \<open>cppall\<close> has values and \<open>oq\<close> has
  none: the imputer drops \<open>oq\<close>, line 42 raises on the 15 columns it is given for 16
  names, and no final table is written, for \<open>cppall\<close> either.
\<close>

theorem imputation_per_column_counterexample:
  "discover hole_listing = Inr [example_hole]
   \<and> pd_concat [example_hole] = Inr example_hole
   \<and> column example_hole ''cppall'' = Some [Num 3, NaN, Num 7]
   \<and> column example_hole ''oq'' = Some [NaN, NaN, NaN]
   \<and> main example_conv no_files hole_listing
       = (Some (ShapeMismatch 15 16),
          \<lparr>all_data = Some example_hole, all_data_imputed = None\<rparr>)"
  by (simp add: ex_hole_discover ex_hole_concat ex_hole_main)
     (simp add: column_def example_hole_def features_def)

text \<open>
  C1, amended: when the consolidated table has the columns of the fixed list and at
  least one row, when every cell of its 16 feature columns is missing, a number or a text
  that converts to a finite number or to \<^verbatim>\<open>nan\<close>, and when every one of the 16 feature
  columns holds at least one number, the run completes and writes both files; in the
  final table every feature column is the consolidated column, converted, with every
  missing entry replaced by the column's median, and has no missing value.
\<close>

theorem imputation_total:
  assumes "discover listing = Inr dfs" and "\<forall>df\<in>set dfs. wf_frame df"
    and "pd_concat dfs = Inr T"
    and "set columns_to_keep \<subseteq> set (colnames T)"
    and "nrows T \<noteq> 0"
    and "features_convertible conv T"
    and "features_observed conv T"
  shows "\<exists>P Q. main conv fs listing
                 = (None, fs\<lparr>all_data := Some P, all_data_imputed := Some Q\<rparr>)
           \<and> (\<forall>c\<in>set features. \<exists>v w m.
                  column T c = Some v
                \<and> median_masked (map (as_float conv) v) = Some m
                \<and> m = standard_median (observed (map (as_float conv) v))
                \<and> column Q c = Some w \<and> NaN \<notin> set w
                \<and> w = map (\<lambda>x. if as_float conv x = NaN then Num m else as_float conv x) v)"
proof (rule projection_ok[OF assms(2,3,4)])
  fix P
  assume P: "getitem T columns_to_keep = Inr P" and wfP: "wf_frame P"
    and rowsP: "nrows P = nrows T"
    and colP: "\<And>c. column P c = (if c \<in> set columns_to_keep then column T c else None)"
    and subP: "set features \<subseteq> set (colnames P)"
  have same: "column P c = column T c" if "c \<in> set features" for c
    using that features_subset by (auto simp: colP)
  have has: "\<exists>v. column T c = Some v" if "c \<in> set features" for c
    using that subP same[OF that] column_Some_iff[of P c] by auto
  note C = convertible_matrix[OF assms(6) same subP]
  from assms(5) rowsP have rows: "nrows P \<noteq> 0" by simp
  have obs_col: "observed (map (as_float conv) v) \<noteq> []"
    if "c \<in> set features" and "column T c = Some v" for c v
    using that assms(7)
    by (auto simp: features_observed_def list_all_iff observed_float_nonempty)
  have obs: "\<forall>k\<in>set features. observed (float_column conv P k) \<noteq> []"
  proof
    fix k assume k: "k \<in> set features"
    with has obtain v where v: "column T k = Some v" by blast
    with same[OF k] have "float_column conv P k = map (as_float conv) v"
      by (simp add: float_column_Some)
    with obs_col[OF k v] show "observed (float_column conv P k) \<noteq> []" by simp
  qed
  from impute_features_full[OF wfP subP C rows obs]
  obtain Q where Q: "impute_features conv P = Inr Q" by blast
  from assms(1) pipeline_complete[OF assms(3) P Q]
  have run: "main conv fs listing = (None, fs\<lparr>all_data := Some P, all_data_imputed := Some Q\<rparr>)"
    by (simp add: main_discovered)
  note I = impute_features_columns[OF wfP subP Q]
  have per_column: "\<exists>v w m. column T c = Some v
                \<and> median_masked (map (as_float conv) v) = Some m
                \<and> m = standard_median (observed (map (as_float conv) v))
                \<and> column Q c = Some w \<and> NaN \<notin> set w
                \<and> w = map (\<lambda>x. if as_float conv x = NaN then Num m else as_float conv x) v"
    if c: "c \<in> set features" for c
  proof -
    from has[OF c] obtain v where v: "column T c = Some v" by blast
    with same[OF c] have fc: "float_column conv P c = map (as_float conv) v"
      by (simp add: float_column_Some)
    let ?m = "standard_median (observed (map (as_float conv) v))"
    from obs_col[OF c v]
    have med: "median_masked (map (as_float conv) v) = Some ?m"
      by (rule median_masked_standard)
    from I(3)[of c] c fc med
    have Qc: "column Q c = Some (map (fill ?m) (map (as_float conv) v))" by simp
    have "NaN \<notin> set (map (fill ?m) (map (as_float conv) v))" by (rule fill_not_NaN)
    moreover have "map (fill ?m) (map (as_float conv) v)
                 = map (\<lambda>x. if as_float conv x = NaN then Num ?m else as_float conv x) v"
      by (simp add: fill_def)
    ultimately show ?thesis using v med Qc by auto
  qed
  from run per_column show ?thesis by blast
qed

theorem imputation_total_witness:
  "discover text_listing = Inr [example_text]
   \<and> wf_frame example_text
   \<and> pd_concat [example_text] = Inr example_text
   \<and> set columns_to_keep \<subseteq> set (colnames example_text)
   \<and> nrows example_text \<noteq> 0
   \<and> features_convertible example_conv example_text
   \<and> features_observed example_conv example_text
   \<and> main example_conv no_files text_listing
       = (None, \<lparr>all_data = Some example_text, all_data_imputed = Some example_text_imputed\<rparr>)
   \<and> column example_text ''level'' = Some [Str ''1.5'', Str ''nan'', Str ''1.5'']
   \<and> column example_text_imputed ''level'' = Some [Num (3 / 2), Num (3 / 2), Num (3 / 2)]
   \<and> column example_text ''cppall'' = Some [Num 3, NaN, Num 7]
   \<and> column example_text_imputed ''cppall'' = Some [Num 3, Num 5, Num 7]"
proof -
  have wf: "\<forall>df\<in>set [example_text]. wf_frame df" by (simp add: ex_text_wf)
  have sub: "set columns_to_keep \<subseteq> set (colnames example_text)"
    by (simp add: ex_text_colnames)
  have rows: "nrows example_text \<noteq> 0" by (simp add: example_text_def)
  have cols: "column example_text ''level'' = Some [Str ''1.5'', Str ''nan'', Str ''1.5'']"
    "column example_text_imputed ''level'' = Some [Num (3 / 2), Num (3 / 2), Num (3 / 2)]"
    "column example_text ''cppall'' = Some [Num 3, NaN, Num 7]"
    "column example_text_imputed ''cppall'' = Some [Num 3, Num 5, Num 7]"
    by (simp_all add: column_def example_text_def example_text_imputed_def features_def)
  from imputation_total[OF ex_text_discover wf ex_text_concat sub rows
      ex_text_convertible ex_text_observed, of no_files]
  have "fst (main example_conv no_files text_listing) = None" by auto
  with ex_text_main show ?thesis
    by (simp add: ex_text_discover ex_text_wf ex_text_concat sub rows
        ex_text_convertible ex_text_observed cols)
qed

text \<open>
  C4. Imputation changes the feature columns only. After a run that completes, the
  table written to the imputed file has the rows and the columns, in order, of the table
  written to the raw file; the columns \<open>ts\<close>, \<open>subject_id\<close>, \<open>week\<close>, \<open>date\<close>, and every
  other column outside the feature list, are identical in both; every column has the
  same length in both, and every cell that holds a number is at the same row of the
  imputed table: as it was outside the feature list, and as the float it converts to in
  a feature column (for a number, the number itself).
\<close>

theorem non_feature_invariance:
  assumes "discover listing = Inr dfs" and "\<forall>df\<in>set dfs. wf_frame df"
    and "main conv fs listing = (None, fs')"
  shows "\<exists>P Q. all_data fs' = Some P \<and> all_data_imputed fs' = Some Q
           \<and> nrows Q = nrows P \<and> colnames Q = colnames P
           \<and> column Q ''ts'' = column P ''ts''
           \<and> column Q ''subject_id'' = column P ''subject_id''
           \<and> column Q ''week'' = column P ''week''
           \<and> column Q ''date'' = column P ''date''
           \<and> (\<forall>c. c \<notin> set features \<longrightarrow> column Q c = column P c)
           \<and> (\<forall>c. map_option length (column Q c) = map_option length (column P c))
           \<and> (\<forall>c i x. cell_at P c i = Some x \<and> as_float conv x \<noteq> NaN \<longrightarrow>
                 cell_at Q c i = Some (if c \<in> set features then as_float conv x else x))"
proof (rule run_success[OF assms])
  fix T P Q
  assume fs': "fs' = fs\<lparr>all_data := Some P, all_data_imputed := Some Q\<rparr>"
    and cnP: "colnames P = columns_to_keep" and cnQ: "colnames Q = columns_to_keep"
    and rows: "nrows Q = nrows P"
    and colQ: "\<And>c. column Q c =
          (if c \<in> set features
           then Some (map (fill (the (median_masked (float_column conv P c))))
                          (float_column conv P c))
           else column P c)"
  have other: "column Q c = column P c" if "c \<notin> set features" for c
    using that by (simp add: colQ)
  have four: "''ts'' \<notin> set features" "''subject_id'' \<notin> set features"
    "''week'' \<notin> set features" "''date'' \<notin> set features"
    by (simp_all add: features_def)
  have feat: "\<exists>v. column P c = Some v" if "c \<in> set features" for c
  proof -
    from that features_subset have "c \<in> set (colnames P)" by (auto simp: cnP)
    then show ?thesis by (simp add: column_Some_iff)
  qed
  have len: "map_option length (column Q c) = map_option length (column P c)" for c
  proof (cases "c \<in> set features")
    case True
    with feat obtain v where "column P c = Some v" by blast
    with True show ?thesis by (simp add: colQ float_column_Some)
  next
    case False
    then show ?thesis by (simp add: other)
  qed
  have cell: "cell_at Q c i = Some (if c \<in> set features then as_float conv x else x)"
    if "cell_at P c i = Some x" and "as_float conv x \<noteq> NaN" for c i x
  proof (cases "c \<in> set features")
    case True
    with feat obtain v where v: "column P c = Some v" by blast
    with that(1) have "i < length v" and "v ! i = x"
      by (auto simp: cell_at_def split: if_splits)
    with True v that(2) show ?thesis
      by (simp add: cell_at_def colQ float_column_Some fill_def)
  next
    case False
    with that(1) show ?thesis by (simp add: cell_at_def other)
  qed
  show ?thesis
    using fs' rows cnP cnQ other four len cell by auto
qed

theorem non_feature_invariance_witness:
  "discover example_listing = Inr [example_nf, example_pf]
   \<and> wf_frame example_nf \<and> wf_frame example_pf
   \<and> main example_conv no_files example_listing
       = (None, \<lparr>all_data = Some example_raw, all_data_imputed = Some example_imputed\<rparr>)
   \<and> nrows example_imputed = nrows example_raw
   \<and> colnames example_imputed = colnames example_raw
   \<and> column example_imputed ''ts'' = column example_raw ''ts''
   \<and> column example_imputed ''week'' = Some [Num 1, Num 1, Num 2, Num 2, NaN]
   \<and> cell_at example_raw ''cppall'' 2 = Some (Num 3)
   \<and> cell_at example_imputed ''cppall'' 2 = Some (Num 3)"
proof -
  have wf: "\<forall>df\<in>set [example_nf, example_pf]. wf_frame df" by (simp add: ex_wf)
  have week: "column example_raw ''week'' = Some [Num 1, Num 1, Num 2, Num 2, NaN]"
    by (simp add: column_def example_raw_def)
  have cell: "cell_at example_raw ''cppall'' 2 = Some (Num 3)"
    by (simp add: cell_at_def column_def example_raw_def features_def)
  have f: "''cppall'' \<in> set features" by (simp add: features_def)
  from non_feature_invariance[OF ex_discover wf ex_main]
  have same: "nrows example_imputed = nrows example_raw"
    "colnames example_imputed = colnames example_raw"
    "column example_imputed ''ts'' = column example_raw ''ts''"
    "column example_imputed ''week'' = column example_raw ''week''"
    and cells: "\<forall>c i x. cell_at example_raw c i = Some x \<and> as_float example_conv x \<noteq> NaN
           \<longrightarrow> cell_at example_imputed c i
               = Some (if c \<in> set features then as_float example_conv x else x)"
    by simp_all
  from cells[rule_format, of "''cppall''" 2 "Num 3"] cell f
  have "cell_at example_imputed ''cppall'' 2 = Some (Num 3)" by simp
  with same week cell show ?thesis
    by (simp add: ex_discover ex_wf ex_main)
qed

text \<open>
  C9. The column \<open>voicedRMS\<close> is the 21st label of the projection list and is not in the
  feature list. After a run that completes, it is the same column in the consolidated
  table, in the raw output and in the imputed output: it is never imputed, and its
  missing values are still there.
\<close>

theorem voicedRMS_not_imputed:
  assumes "discover listing = Inr dfs" and "\<forall>df\<in>set dfs. wf_frame df"
    and "main conv fs listing = (None, fs')"
  shows "columns_to_keep ! 20 = ''voicedRMS'' \<and> ''voicedRMS'' \<notin> set features
         \<and> (\<exists>T P Q v. pd_concat dfs = Inr T \<and> all_data fs' = Some P
               \<and> all_data_imputed fs' = Some Q
               \<and> column T ''voicedRMS'' = Some v
               \<and> column P ''voicedRMS'' = Some v
               \<and> column Q ''voicedRMS'' = Some v)"
proof (rule run_success[OF assms])
  fix T P Q
  assume T: "pd_concat dfs = Inr T"
    and cnP: "colnames P = columns_to_keep"
    and colP: "\<And>c. column P c = (if c \<in> set columns_to_keep then column T c else None)"
    and fs': "fs' = fs\<lparr>all_data := Some P, all_data_imputed := Some Q\<rparr>"
    and colQ: "\<And>c. column Q c =
          (if c \<in> set features
           then Some (map (fill (the (median_masked (float_column conv P c))))
                          (float_column conv P c))
           else column P c)"
  have k: "columns_to_keep ! 20 = ''voicedRMS''" by (simp add: columns_to_keep_def)
  have nf: "''voicedRMS'' \<notin> set features" by (simp add: features_def)
  have kept: "''voicedRMS'' \<in> set columns_to_keep" by (simp add: columns_to_keep_def)
  then have "''voicedRMS'' \<in> set (colnames P)" by (simp add: cnP)
  then obtain v where v: "column P ''voicedRMS'' = Some v"
    using column_Some_iff[of P "''voicedRMS''"] by blast
  with colP[of "''voicedRMS''"] kept have "column T ''voicedRMS'' = Some v" by simp
  moreover from colQ[of "''voicedRMS''"] nf v have "column Q ''voicedRMS'' = Some v" by simp
  ultimately show ?thesis
    using k nf T fs' v by auto
qed

theorem voicedRMS_not_imputed_witness:
  "discover example_listing = Inr [example_nf, example_pf]
   \<and> wf_frame example_nf \<and> wf_frame example_pf
   \<and> main example_conv no_files example_listing
       = (None, \<lparr>all_data = Some example_raw, all_data_imputed = Some example_imputed\<rparr>)
   \<and> column example_concat ''voicedRMS'' = Some [NaN, Num 2, Num 5, NaN, NaN]
   \<and> column example_raw ''voicedRMS'' = Some [NaN, Num 2, Num 5, NaN, NaN]
   \<and> column example_imputed ''voicedRMS'' = Some [NaN, Num 2, Num 5, NaN, NaN]"
proof -
  have wf: "\<forall>df\<in>set [example_nf, example_pf]. wf_frame df" by (simp add: ex_wf)
  have raw: "column example_raw ''voicedRMS'' = Some [NaN, Num 2, Num 5, NaN, NaN]"
    by (simp add: column_def example_raw_def features_def)
  from voicedRMS_not_imputed[OF ex_discover wf ex_main]
  have "column example_concat ''voicedRMS'' = column example_raw ''voicedRMS''"
    and "column example_imputed ''voicedRMS'' = column example_raw ''voicedRMS''"
    by (auto simp: ex_concat)
  with raw show ?thesis
    by (simp add: ex_discover ex_wf ex_main)
qed



text \<open>
  C5. For every consolidated table that has at least the columns of the fixed list, the
  projection succeeds and its result has exactly the 21 fixed columns, in the fixed
  order, each with the cells it has in the consolidated table; every other column is
  gone. This is the table written to the raw output file.
\<close>

theorem column_completeness:
  assumes "wf_frame T" and "set columns_to_keep \<subseteq> set (colnames T)"
  shows "\<exists>P. getitem T columns_to_keep = Inr P
           \<and> colnames P =
               [''ts'', ''subject_id'', ''week'', ''date'', ''cppall'', ''zcrall'',
                ''normpeakall'', ''spectralTiltall'', ''LHratioall'', ''H1H2all'',
                ''periodicity'', ''level'', ''freq'', ''dBcms2'', ''cppall_2048'', ''acflow'',
                ''mfdr'', ''oq'', ''naq'', ''h1h2'', ''voicedRMS'']
           \<and> length (cols P) = 21 \<and> nrows P = nrows T
           \<and> (\<forall>c. column P c = (if c \<in> set columns_to_keep then column T c else None))
           \<and> (pd_concat dfs = Inr T \<longrightarrow> all_data (snd (pipeline conv fs dfs)) = Some P)"
proof -
  from assms(1) have d: "distinct (colnames T)" by (simp add: wf_frame_def)
  from getitem_Inr[OF d assms(2)] obtain P where P: "getitem T columns_to_keep = Inr P"
    by blast
  note G = getitem_wf[OF assms(1) P distinct_columns_to_keep]
  have names: "colnames P = [''ts'', ''subject_id'', ''week'', ''date'', ''cppall'', ''zcrall'',
                ''normpeakall'', ''spectralTiltall'', ''LHratioall'', ''H1H2all'',
                ''periodicity'', ''level'', ''freq'', ''dBcms2'', ''cppall_2048'', ''acflow'',
                ''mfdr'', ''oq'', ''naq'', ''h1h2'', ''voicedRMS'']"
    unfolding G(2) by (simp add: columns_to_keep_def)
  have "length (cols P) = length (colnames P)" by (simp add: colnames_def)
  then have len: "length (cols P) = 21" by (simp add: G(2) length_columns_to_keep)
  have written: "all_data (snd (pipeline conv fs dfs)) = Some P" if "pd_concat dfs = Inr T"
    using that P by (cases "impute_features conv P") (simp_all add: pipeline_def)
  show ?thesis
    using P names len G(3) G(4) written by blast
qed

theorem column_completeness_witness:
  "wf_frame example_concat \<and> set columns_to_keep \<subseteq> set (colnames example_concat)
   \<and> ''extra'' \<in> set (colnames example_concat)
   \<and> getitem example_concat columns_to_keep = Inr example_raw
   \<and> colnames example_raw =
               [''ts'', ''subject_id'', ''week'', ''date'', ''cppall'', ''zcrall'',
                ''normpeakall'', ''spectralTiltall'', ''LHratioall'', ''H1H2all'',
                ''periodicity'', ''level'', ''freq'', ''dBcms2'', ''cppall_2048'', ''acflow'',
                ''mfdr'', ''oq'', ''naq'', ''h1h2'', ''voicedRMS'']
   \<and> column example_raw ''extra'' = None
   \<and> all_data (snd (pipeline example_conv no_files [example_nf, example_pf])) = Some example_raw"
proof -
  have wf: "wf_frame example_concat"
    by (simp add: example_concat_def wf_frame_def colnames_def features_def)
  have names: "colnames example_concat = columns_to_keep @ [''extra'']"
    by (simp add: example_concat_def colnames_def features_def columns_to_keep_def)
  then have sub: "set columns_to_keep \<subseteq> set (colnames example_concat)" by auto
  have extra: "''extra'' \<notin> set columns_to_keep" by (simp add: columns_to_keep_def)
  from column_completeness[OF wf sub, of "[example_nf, example_pf]" example_conv no_files]
  show ?thesis
    using wf sub names extra by (auto simp: ex_project ex_concat)
qed

text \<open>
  C6. If a column of the fixed list is missing from the consolidated table, the
  projection raises \<^verbatim>\<open>KeyError\<close> naming it, the run ends with that error, and neither
  output file has been written: nothing is projected in part and no default is
  substituted.
\<close>

theorem missing_column_aborts:
  assumes "discover listing = Inr dfs" and "pd_concat dfs = Inr T"
    and "c \<in> set columns_to_keep" and "c \<notin> set (colnames T)"
  shows "\<exists>missing. c \<in> set missing
           \<and> getitem T columns_to_keep = Inl (KeyError missing)
           \<and> main conv fs listing = (Some (KeyError missing), fs)"
proof -
  let ?missing = "filter (\<lambda>k. k \<notin> set (colnames T)) columns_to_keep"
  from assms(3,4) have "\<not> set columns_to_keep \<subseteq> set (colnames T)" by auto
  then have g: "getitem T columns_to_keep = Inl (KeyError ?missing)" by (rule getitem_Inl)
  from assms(3,4) have "c \<in> set ?missing" by simp
  moreover have "main conv fs listing = (Some (KeyError ?missing), fs)"
    using assms(1) pipeline_projection_error[OF assms(2) g] by (simp add: main_discovered)
  ultimately show ?thesis using g by blast
qed

theorem missing_column_aborts_witness:
  "discover drift_listing = Inr [example_drift]
   \<and> pd_concat [example_drift] = Inr example_drift
   \<and> ''voicedRMS'' \<in> set columns_to_keep
   \<and> ''voicedRMS'' \<notin> set (colnames example_drift)
   \<and> fst (main example_conv no_files drift_listing) \<noteq> None
   \<and> snd (main example_conv no_files drift_listing) = no_files"
proof -
  have k: "''voicedRMS'' \<in> set columns_to_keep" by (simp add: columns_to_keep_def)
  have a: "''voicedRMS'' \<notin> set (colnames example_drift)"
    by (simp add: example_drift_def colnames_def)
  from missing_column_aborts[OF ex_drift_discover ex_drift_concat k a, of example_conv no_files]
  show ?thesis
    using k a by (auto simp: ex_drift_discover ex_drift_concat)
qed



text \<open>
  C10. If some feature column of the consolidated table has no non-missing value, the run
  ends with an error and the imputed output file is not written (it is as it was before
  the run). When the table has the columns of the fixed list and at least one row, and
  its feature cells all convert, the error is the one of line 42, raised after the raw
  file has been written: the imputer has dropped the empty columns, and the array has
  one column for each feature column with a value, fewer than 16, for the 16 names.
  (Otherwise an earlier statement has raised: the projection, or the imputer's input
  validation.)
\<close>

theorem all_missing_column_aborts:
  assumes "discover listing = Inr dfs" and "\<forall>df\<in>set dfs. wf_frame df"
    and "pd_concat dfs = Inr T"
    and "c \<in> set features" and "column T c = Some v" and "set v \<subseteq> {NaN}"
  shows "(\<exists>e. fst (main conv fs listing) = Some e)
         \<and> all_data_imputed (snd (main conv fs listing)) = all_data_imputed fs
         \<and> (set columns_to_keep \<subseteq> set (colnames T) \<and> nrows T \<noteq> 0
              \<and> features_convertible conv T
            \<longrightarrow> (\<exists>k P. k < 16
                   \<and> k = length (filter (\<lambda>f. observed (float_column conv T f) \<noteq> []) features)
                   \<and> getitem T columns_to_keep = Inr P
                   \<and> main conv fs listing
                      = (Some (ShapeMismatch k 16), fs\<lparr>all_data := Some P\<rparr>)))"
proof (cases "set columns_to_keep \<subseteq> set (colnames T)")
  case False
  let ?e = "KeyError (filter (\<lambda>k. k \<notin> set (colnames T)) columns_to_keep)"
  from False have "getitem T columns_to_keep = Inl ?e" by (rule getitem_Inl)
  from pipeline_projection_error[OF assms(3) this] assms(1)
  have run: "main conv fs listing = (Some ?e, fs)" by (simp add: main_discovered)
  have 1: "\<exists>e. fst (main conv fs listing) = Some e" unfolding run by simp
  have 2: "all_data_imputed (snd (main conv fs listing)) = all_data_imputed fs"
    unfolding run by simp
  from 1 2 False show ?thesis by blast
next
  case True
  show ?thesis
  proof (rule projection_ok[OF assms(2,3) True])
    fix P
    assume P: "getitem T columns_to_keep = Inr P" and wfP: "wf_frame P"
      and rowsP: "nrows P = nrows T"
      and colP: "\<And>c. column P c = (if c \<in> set columns_to_keep then column T c else None)"
      and subP: "set features \<subseteq> set (colnames P)"
    have same: "column P k = column T k" if "k \<in> set features" for k
      using that features_subset by (auto simp: colP)
    have fsame: "float_column conv P k = float_column conv T k" if "k \<in> set features" for k
      using same[OF that] by (simp add: float_column_def)
    from same[OF assms(4)] assms(5) have "float_column conv P c = map (as_float conv) v"
      by (simp add: float_column_Some)
    with assms(6) have empty: "observed (float_column conv P c) = []"
      by (simp add: all_missing_observed)
    from impute_features_empty_column[OF wfP subP assms(4) empty]
    obtain e where e: "impute_features conv P = Inl e" by blast
    from pipeline_imputation_error[OF assms(3) P e] assms(1)
    have run: "main conv fs listing = (Some e, fs\<lparr>all_data := Some P\<rparr>)"
      by (simp add: main_discovered)
    have 1: "\<exists>e. fst (main conv fs listing) = Some e" unfolding run by simp
    have 2: "all_data_imputed (snd (main conv fs listing)) = all_data_imputed fs"
      unfolding run by simp
    have 3: "\<exists>k P. k < 16
                   \<and> k = length (filter (\<lambda>f. observed (float_column conv T f) \<noteq> []) features)
                   \<and> getitem T columns_to_keep = Inr P
                   \<and> main conv fs listing
                      = (Some (ShapeMismatch k 16), fs\<lparr>all_data := Some P\<rparr>)"
      if rows: "nrows T \<noteq> 0" and cv: "features_convertible conv T"
    proof -
      note C = convertible_matrix[OF cv same subP]
      from rows rowsP have r: "nrows P \<noteq> 0" by simp
      note D = impute_features_dropped[OF wfP subP C r assms(4) empty]
      let ?k = "length (filter (\<lambda>k. observed (float_column conv P k) \<noteq> []) features)"
      have "filter (\<lambda>k. observed (float_column conv P k) \<noteq> []) features
            = filter (\<lambda>f. observed (float_column conv T f) \<noteq> []) features"
        by (rule filter_cong) (simp_all add: fsame)
      then have k: "?k = length (filter (\<lambda>f. observed (float_column conv T f) \<noteq> []) features)"
        by simp
      from pipeline_imputation_error[OF assms(3) P D(1)] assms(1)
      have "main conv fs listing = (Some (ShapeMismatch ?k 16), fs\<lparr>all_data := Some P\<rparr>)"
        by (simp add: main_discovered)
      with D(2) k P show ?thesis by blast
    qed
    from 1 2 3 show ?thesis by blast
  qed
qed

theorem all_missing_column_aborts_witness:
  "discover hole_listing = Inr [example_hole] \<and> wf_frame example_hole
   \<and> pd_concat [example_hole] = Inr example_hole
   \<and> ''oq'' \<in> set features
   \<and> column example_hole ''oq'' = Some [NaN, NaN, NaN]
   \<and> set [NaN, NaN, NaN] \<subseteq> {NaN}
   \<and> set columns_to_keep \<subseteq> set (colnames example_hole)
   \<and> nrows example_hole \<noteq> 0
   \<and> features_convertible example_conv example_hole
   \<and> fst (main example_conv no_files hole_listing) = Some (ShapeMismatch 15 16)
   \<and> all_data_imputed (snd (main example_conv no_files hole_listing)) = None"
proof -
  have wf: "\<forall>df\<in>set [example_hole]. wf_frame df" by (simp add: ex_hole_wf)
  have c: "''oq'' \<in> set features" by (simp add: features_def)
  have col: "column example_hole ''oq'' = Some [NaN, NaN, NaN]"
    by (simp add: column_def example_hole_def features_def)
  have all: "set [NaN, NaN, NaN] \<subseteq> {NaN}" by simp
  have rows: "nrows example_hole \<noteq> 0" by (simp add: example_hole_def)
  have sub: "set columns_to_keep \<subseteq> set (colnames example_hole)"
    by (simp add: ex_hole_colnames)
  have shape: "fst (main example_conv no_files hole_listing) = Some (ShapeMismatch 15 16)"
    by (simp add: ex_hole_main)
  from all_missing_column_aborts[OF ex_hole_discover wf ex_hole_concat c col all,
      of example_conv no_files]
  have "all_data_imputed (snd (main example_conv no_files hole_listing))
        = all_data_imputed no_files"
    by blast
  then have none: "all_data_imputed (snd (main example_conv no_files hole_listing)) = None"
    by (simp add: no_files_def)
  from ex_hole_discover ex_hole_wf ex_hole_concat c col all sub rows ex_hole_convertible
    shape none
  show ?thesis by blast
qed

end
